theory Spec2Isabelle
  imports Main
begin

section \<open>The deprecation module \<open>lib/common/api/deprecate.ts\<close>\<close>

text \<open>
  The module keeps one handler reference, reads three flags of the hosting process, and
  hands out closures that own a private boolean. The embedding passes the state
  explicitly. Whatever leaves the module (a handler call, a thrown error, a console line,
  a call of a wrapped function, an emission on the emitter, a call of a host accessor)
  is appended to a history of events, so that "how many notices were reported" is a
  property of the history.
\<close>

subsection \<open>Values, errors and outcomes\<close>

datatype jsval = Undefined | Null | Bool bool | Num int | Str string | Ref nat

datatype error = Error string | TypeError

datatype 'a outcome = Returned 'a | Thrown error

text \<open>
  A property of an object is a data property (value, writable, configurable) or an
  accessor property (getter, setter, configurable); whether it is enumerable plays no
  part here. The type parameter is the type of the functions in the accessors.

  A function of the host is opaque: \<open>HostGetter n r\<close> reads the host value \<open>n\<close>,
  or throws \<open>e\<close> when \<open>r\<close> is \<open>Some e\<close>; \<open>HostSetter n r\<close> writes it, or throws
  \<open>e\<close> when \<open>r\<close> gives \<open>Some e\<close> for the value written.
\<close>

datatype 'f property =
    Data jsval bool bool
  | Accessor "'f option" "'f option" bool

datatype hostfn =
    HostGetter nat "error option"
  | HostSetter nat "jsval \<Rightarrow> error option"

subsection \<open>The state of the module and of its collaborators\<close>

text \<open>
  \<open>process\<close> holds the three flags \<open>process.noDeprecation\<close>,
  \<open>process.throwDeprecation\<close> and \<open>process.traceDeprecation\<close>; the module reads
  them and never writes them.
\<close>

record process =
  noDeprecation :: bool
  throwDeprecation :: bool
  traceDeprecation :: bool

text \<open>
  A handler is a function of the embedder. It is opaque here: it is known by a number
  and by the error it throws, if any, for a message; a call of it is the event
  \<open>Handled n message\<close>. It is taken not to call back into the module.
\<close>

datatype handler = Handler nat "string \<Rightarrow> error option"

fun handler_id :: "handler \<Rightarrow> nat" where
  "handler_id (Handler n r) = n"

fun handler_raises :: "handler \<Rightarrow> string \<Rightarrow> error option" where
  "handler_raises (Handler n r) = r"

text \<open>
  The four notice events are what \<open>log\<close> can do with a message; each carries
  exactly the text that reaches the channel. \<open>Threw m\<close> records that an
  \<open>Error\<close> with description \<open>m\<close> was raised; the error is also the outcome
  of the call.
\<close>

datatype event =
    Handled nat string
  | Threw string
  | Traced string
  | Warned string
  | Applied string jsval "jsval list"
  | Emitted string "jsval list"
  | Delivered nat string "jsval list"
  | HostGet nat
  | HostSet nat jsval

text \<open>
  \<open>warned c\<close> is the private variable \<open>warned\<close> of the closure that
  \<open>warnOnceMessage\<close> created as its \<open>c\<close>-th one; \<open>next_cell\<close> numbers the
  next closure. \<open>host n\<close> is the value behind the host accessor pair \<open>n\<close>, and
  \<open>heap r\<close> holds the own properties of the host object that the value \<open>Ref r\<close>
  refers to.
\<close>

record state =
  deprecationHandler :: "handler option"
  proc :: process
  warned :: "nat \<Rightarrow> bool"
  next_cell :: nat
  events :: "event list"
  host :: "nat \<Rightarrow> jsval"
  heap :: "nat \<Rightarrow> string \<rightharpoonup> hostfn property"

definition record_event :: "event \<Rightarrow> state \<Rightarrow> state" where
  "record_event e s = s\<lparr>events := events s @ [e]\<rparr>"

subsection \<open>The notice sink\<close>

definition setHandler :: "handler option \<Rightarrow> state \<Rightarrow> state" where
  "setHandler handler s = s\<lparr>deprecationHandler := handler\<rparr>"

definition getHandler :: "state \<Rightarrow> handler option" where
  "getHandler s = deprecationHandler s"

text \<open>
  \<open>typeof deprecationHandler === 'function'\<close> holds exactly when a handler is
  set: the type of the variable is \<open>DeprecationHandler | null\<close>. The handler is
  called without a \<open>try\<close>: what it throws, \<open>log\<close> throws.
\<close>

definition log :: "string \<Rightarrow> state \<Rightarrow> unit outcome \<times> state" where
  "log message s =
     (case deprecationHandler s of
        Some h \<Rightarrow>
          ((case handler_raises h message of None \<Rightarrow> Returned () | Some e \<Rightarrow> Thrown e),
           record_event (Handled (handler_id h) message) s)
      | None \<Rightarrow>
          if throwDeprecation (proc s) then
            (Thrown (Error message), record_event (Threw message) s)
          else if traceDeprecation (proc s) then
            (Returned (), record_event (Traced message) s)
          else
            (Returned (), record_event (Warned (''(electron) '' @ message)) s))"

text \<open>The messages quote names with the apostrophe, written \<open>sq\<close> below.\<close>

abbreviation sq :: char where
  "sq \<equiv> CHR 0x27"

definition warn :: "string \<Rightarrow> string \<Rightarrow> state \<Rightarrow> unit outcome \<times> state" where
  "warn oldName newName s =
     (if \<not> noDeprecation (proc s) then
        log (sq # oldName @ sq # '' is deprecated. Use '' @ sq # newName @ sq # '' instead.'') s
      else (Returned (), s))"

subsection \<open>The warning deduplicator\<close>

text \<open>
  The closure returned by \<open>warnOnceMessage\<close> is the pair of its variable
  \<open>warned\<close> (a cell of the state) and the message it captured.
\<close>

datatype warner = Warner nat string

definition warnOnceMessage :: "string \<Rightarrow> state \<Rightarrow> warner \<times> state" where
  "warnOnceMessage msg s =
     (Warner (next_cell s) msg,
      s\<lparr>warned := (warned s)(next_cell s := False), next_cell := Suc (next_cell s)\<rparr>)"

text \<open>Calling the closure: the body of the arrow function of \<open>warnOnceMessage\<close>.\<close>

fun call_warner :: "warner \<Rightarrow> state \<Rightarrow> unit outcome \<times> state" where
  "call_warner (Warner c msg) s =
     (if \<not> warned s c \<and> \<not> noDeprecation (proc s) then
        log msg (s\<lparr>warned := (warned s)(c := True)\<rparr>)
      else (Returned (), s))"

text \<open>
  \<open>newName\<close> is optional; the test \<open>newName ? ... : ...\<close> also takes the
  second branch for the empty string.
\<close>

definition warnOnce :: "string \<Rightarrow> string option \<Rightarrow> state \<Rightarrow> warner \<times> state" where
  "warnOnce oldName newName s =
     warnOnceMessage
       (case newName of
          Some n \<Rightarrow>
            if n \<noteq> [] then
              sq # oldName @ sq # '' is deprecated and will be removed. Please use '' @ sq # n @ sq # '' instead.''
            else sq # oldName @ sq # '' is deprecated and will be removed.''
        | None \<Rightarrow> sq # oldName @ sq # '' is deprecated and will be removed.'') s"

subsection \<open>Wrapped functions\<close>

text \<open>
  A JavaScript function is known by its \<open>name\<close> property and by what a call of
  it gives back for a receiver and an argument list: a value, or an error it throws.
  A call of it is the event \<open>Applied name this args\<close>. The wrapped function is
  code of the embedder; it is taken not to call back into the module.
\<close>

record jsfun =
  fname :: string
  impl :: "jsval \<Rightarrow> jsval list \<Rightarrow> jsval outcome"

definition apply_fn :: "jsfun \<Rightarrow> jsval \<Rightarrow> jsval list \<Rightarrow> state \<Rightarrow> jsval outcome \<times> state" where
  "apply_fn fn this args s = (impl fn this args, record_event (Applied (fname fn) this args) s)"

text \<open>
  The wrappers are closures over \<open>warn\<close> and \<open>fn\<close>. \<open>Discarding\<close> is the
  function returned by \<open>removeFunction\<close>, whose body has no \<open>return\<close>;
  \<open>Forwarding\<close> is the one returned by \<open>renameFunction\<close> and \<open>moveAPI\<close>.
\<close>

datatype wrapper = Discarding warner jsfun | Forwarding warner jsfun

text \<open>
  \<open>removeFunction\<close> tests \<open>!fn\<close>. Its parameter has a function type, and a
  function is never falsy, so the test succeeds exactly when no function was passed:
  the argument is a \<open>jsfun option\<close>.
\<close>

definition removeFunction :: "jsfun option \<Rightarrow> string \<Rightarrow> state \<Rightarrow> wrapper outcome \<times> state" where
  "removeFunction fn removedName s =
     (case fn of
        None \<Rightarrow>
          (Thrown (Error (sq # removedName @ '' function'' @ sq # '' is invalid or does not exist.'')), s)
      | Some f \<Rightarrow>
          (case warnOnce (fname f @ '' function'') None s of
             (w, s') \<Rightarrow> (Returned (Discarding w f), s')))"

definition renameFunction :: "jsfun \<Rightarrow> string \<Rightarrow> state \<Rightarrow> wrapper \<times> state" where
  "renameFunction fn newName s =
     (case warnOnce (fname fn @ '' function'') (Some (newName @ '' function'')) s of
        (w, s') \<Rightarrow> (Forwarding w fn, s'))"

definition moveAPI :: "jsfun \<Rightarrow> string \<Rightarrow> string \<Rightarrow> state \<Rightarrow> wrapper \<times> state" where
  "moveAPI fn oldUsage newUsage s =
     (case warnOnce oldUsage (Some newUsage) s of
        (w, s') \<Rightarrow> (Forwarding w fn, s'))"

text \<open>Calling a wrapper with receiver \<open>this\<close> and arguments \<open>args\<close>.\<close>

fun call_wrapper :: "wrapper \<Rightarrow> jsval \<Rightarrow> jsval list \<Rightarrow> state \<Rightarrow> jsval outcome \<times> state" where
  "call_wrapper (Discarding w fn) this args s =
     (case call_warner w s of
        (Thrown e, s') \<Rightarrow> (Thrown e, s')
      | (Returned _, s') \<Rightarrow>
          (case apply_fn fn this args s' of
             (Thrown e, s'') \<Rightarrow> (Thrown e, s'')
           | (Returned _, s'') \<Rightarrow> (Returned Undefined, s'')))"
| "call_wrapper (Forwarding w fn) this args s =
     (case call_warner w s of
        (Thrown e, s') \<Rightarrow> (Thrown e, s')
      | (Returned _, s') \<Rightarrow> apply_fn fn this args s')"

subsection \<open>Events of an emitter\<close>

text \<open>
  The emitter is a collaborator of the module, used through three operations: subscribe
  by name, emit by name, count the listeners of a name. For each event name it holds the
  listeners in the order of their registration. \<open>on\<close> appends one,
  \<open>listenerCount\<close> counts them, \<open>emit\<close> calls them in order with the arguments of the
  emission and stops at the first one that throws. A listener of the embedder is opaque
  (\<open>Plain\<close>): it is known by a number and by the error it throws, if any, for an
  argument list; a call of it is the event \<open>Delivered\<close>, and it is taken to leave the
  emitter as it is. \<open>Forwarder oldName warn transformer\<close> is the function that
  \<open>event\<close> registers; a transformer gives, for an argument list, an argument list or
  \<open>undefined\<close>, or throws. What Node's emitter does on its own for the names
  \<open>error\<close> and \<open>newListener\<close> is left out.

  A forwarder emits again, so an emission may never end (one whose old name is its new
  name, or two that forward to each other). \<open>emit\<close> takes the number of nested calls it
  may use and gives \<open>None\<close> when they do not suffice.
\<close>

datatype listener =
    Plain nat "jsval list \<Rightarrow> error option"
  | Forwarder string warner "jsval list \<Rightarrow> jsval list option outcome"

type_synonym emitter = "string \<Rightarrow> listener list"

definition on :: "emitter \<Rightarrow> string \<Rightarrow> listener \<Rightarrow> emitter" where
  "on emitter name l = emitter(name := emitter name @ [l])"

definition listenerCount :: "emitter \<Rightarrow> string \<Rightarrow> nat" where
  "listenerCount emitter name = length (emitter name)"

fun emit :: "nat \<Rightarrow> emitter \<Rightarrow> string \<Rightarrow> jsval list \<Rightarrow> state \<Rightarrow> (unit outcome \<times> state) option"
  and run_listeners :: "nat \<Rightarrow> emitter \<Rightarrow> listener list \<Rightarrow> string \<Rightarrow> jsval list \<Rightarrow> state \<Rightarrow> (unit outcome \<times> state) option"
  and call_listener :: "nat \<Rightarrow> emitter \<Rightarrow> listener \<Rightarrow> string \<Rightarrow> jsval list \<Rightarrow> state \<Rightarrow> (unit outcome \<times> state) option"
where
  "emit 0 emitter name args s = None"
| "emit (Suc k) emitter name args s =
     run_listeners k emitter (emitter name) name args (record_event (Emitted name args) s)"
| "run_listeners k emitter [] name args s = Some (Returned (), s)"
| "run_listeners k emitter (l # ls) name args s =
     (case call_listener k emitter l name args s of
        None \<Rightarrow> None
      | Some (Thrown e, s') \<Rightarrow> Some (Thrown e, s')
      | Some (Returned _, s') \<Rightarrow> run_listeners k emitter ls name args s')"
| "call_listener k emitter (Plain n r) name args s =
     Some ((case r args of None \<Rightarrow> Returned () | Some e \<Rightarrow> Thrown e),
           record_event (Delivered n name args) s)"
| "call_listener k emitter (Forwarder oldName w transformer) name args s =
     (if listenerCount emitter oldName \<noteq> 0 then
        (case call_warner w s of
           (Thrown e, s') \<Rightarrow> Some (Thrown e, s')
         | (Returned _, s') \<Rightarrow>
             (case transformer args of
                Thrown e \<Rightarrow> Some (Thrown e, s')
              | Returned None \<Rightarrow> Some (Returned (), s')
              | Returned (Some transformedArgs) \<Rightarrow> emit k emitter oldName transformedArgs s'))
      else Some (Returned (), s))"

text \<open>
  \<open>event\<close>: the default of \<open>transformer\<close> is the identity on argument lists.
\<close>

definition startsWith_dash :: "string \<Rightarrow> bool" where
  "startsWith_dash name = (case name of [] \<Rightarrow> False | c # _ \<Rightarrow> c = CHR ''-'')"

definition event :: "emitter \<Rightarrow> string \<Rightarrow> string
    \<Rightarrow> (jsval list \<Rightarrow> jsval list option outcome) option \<Rightarrow> state \<Rightarrow> emitter \<times> state" where
  "event emitter oldName newName transformer s =
     (case (if startsWith_dash newName
            then warnOnce (oldName @ '' event'') None s
            else warnOnce (oldName @ '' event'') (Some (newName @ '' event'')) s) of
        (w, s') \<Rightarrow>
          (on emitter newName
             (Forwarder oldName w (case transformer of None \<Rightarrow> (\<lambda>args. Returned (Some args)) | Some t \<Rightarrow> t)),
           s'))"

subsection \<open>Objects and their properties\<close>

text \<open>
  An ordinary object has own properties, a chain of prototypes (each given by its own
  properties, the nearest first) and the flag that says whether properties may be added.
  For an object whose chain ends in \<open>Object.prototype\<close>, the last element of the chain
  holds, with the other properties of \<open>Object.prototype\<close>, the accessor property
  \<open>__proto__\<close>: a getter and a setter of the host.

  The functions found in accessor properties are those of the host (their calls are the
  events \<open>HostGet\<close> and \<open>HostSet\<close>) and the four arrow functions that
  \<open>removeProperty\<close> and \<open>renameProperty\<close> create, each with what it captured. The
  prototypes hold host functions only, and the accessors of a wrapped object are called
  on that object.
\<close>

datatype closure =
    Host hostfn
  | RemovedGet warner hostfn
  | RemovedSet warner hostfn "jsval list option"
  | RenamedGet warner string
  | RenamedSet warner string

record jsobj =
  own :: "string \<rightharpoonup> closure property"
  protos :: "(string \<rightharpoonup> hostfn property) list"
  extensible :: bool

fun configurable :: "'f property \<Rightarrow> bool" where
  "configurable (Data v w c) = c"
| "configurable (Accessor g st c) = c"

fun getter_of :: "'f property \<Rightarrow> 'f option" where
  "getter_of (Data v w c) = None"
| "getter_of (Accessor g st c) = g"

fun setter_of :: "'f property \<Rightarrow> 'f option" where
  "setter_of (Data v w c) = None"
| "setter_of (Accessor g st c) = st"

text \<open>The first property of that name along a chain of prototypes.\<close>

fun lookup_chain :: "(string \<rightharpoonup> hostfn property) list \<Rightarrow> string \<Rightarrow> hostfn property option" where
  "lookup_chain [] name = None"
| "lookup_chain (p # ps) name =
     (case p name of Some d \<Rightarrow> Some d | None \<Rightarrow> lookup_chain ps name)"

definition lookup :: "jsobj \<Rightarrow> string \<Rightarrow> closure property option" where
  "lookup object name =
     (case own object name of
        Some d \<Rightarrow> Some d
      | None \<Rightarrow> map_option (map_property Host) (lookup_chain (protos object) name))"

text \<open>\<open>name in object\<close>.\<close>

definition has_property :: "jsobj \<Rightarrow> string \<Rightarrow> bool" where
  "has_property object name = (lookup object name \<noteq> None)"

text \<open>
  \<open>Object.defineProperty(object, name, {get, set})\<close>, with \<open>configurable\<close> given or
  left out. A new property needs an extensible object, and what is left out counts as
  \<open>false\<close>. An existing own property must be configurable, since the functions given
  are new ones; it keeps what the descriptor leaves out.
\<close>

definition defineProperty :: "jsobj \<Rightarrow> string \<Rightarrow> closure \<Rightarrow> closure \<Rightarrow> bool option \<Rightarrow> jsobj outcome" where
  "defineProperty object name g st cfg =
     (case own object name of
        None \<Rightarrow>
          if extensible object then
            Returned (object\<lparr>own := (own object)(name \<mapsto>
              Accessor (Some g) (Some st) (case cfg of Some c \<Rightarrow> c | None \<Rightarrow> False))\<rparr>)
          else Thrown TypeError
      | Some d \<Rightarrow>
          if configurable d then
            Returned (object\<lparr>own := (own object)(name \<mapsto>
              Accessor (Some g) (Some st) (case cfg of Some c \<Rightarrow> c | None \<Rightarrow> True))\<rparr>)
          else Thrown TypeError)"

text \<open>
  Calls of host functions. A function called without an argument sees \<open>undefined\<close>.
  A setter that throws leaves the host value as it is.
\<close>

fun first_arg :: "jsval list \<Rightarrow> jsval" where
  "first_arg [] = Undefined"
| "first_arg (v # vs) = v"

fun call_host :: "hostfn \<Rightarrow> jsval list \<Rightarrow> state \<Rightarrow> jsval outcome \<times> state" where
  "call_host (HostGetter n r) args s =
     ((case r of None \<Rightarrow> Returned (host s n) | Some e \<Rightarrow> Thrown e), record_event (HostGet n) s)"
| "call_host (HostSetter n r) args s =
     (case r (first_arg args) of
        None \<Rightarrow>
          (Returned Undefined,
           record_event (HostSet n (first_arg args)) (s\<lparr>host := (host s)(n := first_arg args)\<rparr>))
      | Some e \<Rightarrow> (Thrown e, record_event (HostSet n (first_arg args)) s))"

text \<open>
  Reading \<open>object[name]\<close>, writing \<open>object[name] = v\<close> (in strict code, where a
  write that cannot be done throws a \<open>TypeError\<close>), and calling a function found in
  an accessor property. \<open>onlyForValues.includes(newVal)\<close> is membership in the list.
  The accessors installed by \<open>renameProperty\<close> read and write the object again, so
  these three take the number of nested calls they may use, as \<open>emit\<close> does.
\<close>

fun get :: "nat \<Rightarrow> jsobj \<Rightarrow> string \<Rightarrow> state \<Rightarrow> (jsval outcome \<times> jsobj \<times> state) option"
  and put :: "nat \<Rightarrow> jsobj \<Rightarrow> string \<Rightarrow> jsval \<Rightarrow> state \<Rightarrow> (jsval outcome \<times> jsobj \<times> state) option"
  and call_fn :: "nat \<Rightarrow> closure \<Rightarrow> jsval list \<Rightarrow> jsobj \<Rightarrow> state \<Rightarrow> (jsval outcome \<times> jsobj \<times> state) option"
where
  "get 0 object name s = None"
| "get (Suc k) object name s =
     (case lookup object name of
        None \<Rightarrow> Some (Returned Undefined, object, s)
      | Some (Data v w c) \<Rightarrow> Some (Returned v, object, s)
      | Some (Accessor None st c) \<Rightarrow> Some (Returned Undefined, object, s)
      | Some (Accessor (Some g) st c) \<Rightarrow> call_fn k g [] object s)"
| "put 0 object name v s = None"
| "put (Suc k) object name v s =
     (case lookup object name of
        None \<Rightarrow>
          if extensible object then
            Some (Returned v, object\<lparr>own := (own object)(name \<mapsto> Data v True True)\<rparr>, s)
          else Some (Thrown TypeError, object, s)
      | Some (Data u w c) \<Rightarrow>
          if \<not> w then Some (Thrown TypeError, object, s)
          else if own object name \<noteq> None then
            Some (Returned v, object\<lparr>own := (own object)(name \<mapsto> Data v w c)\<rparr>, s)
          else if extensible object then
            Some (Returned v, object\<lparr>own := (own object)(name \<mapsto> Data v True True)\<rparr>, s)
          else Some (Thrown TypeError, object, s)
      | Some (Accessor g None c) \<Rightarrow> Some (Thrown TypeError, object, s)
      | Some (Accessor g (Some st) c) \<Rightarrow>
          (case call_fn k st [v] object s of
             None \<Rightarrow> None
           | Some (Thrown e, object', s') \<Rightarrow> Some (Thrown e, object', s')
           | Some (Returned _, object', s') \<Rightarrow> Some (Returned v, object', s')))"
| "call_fn 0 f args object s = None"
| "call_fn (Suc k) (Host h) args object s =
     (case call_host h args s of (r, s') \<Rightarrow> Some (r, object, s'))"
| "call_fn (Suc k) (RemovedGet w g) args object s =
     (case call_warner w s of
        (Thrown e, s') \<Rightarrow> Some (Thrown e, object, s')
      | (Returned _, s') \<Rightarrow>
          (case call_host g [] s' of (r, s'') \<Rightarrow> Some (r, object, s'')))"
| "call_fn (Suc k) (RemovedSet w st onlyForValues) args object s =
     (case (if (case onlyForValues of None \<Rightarrow> True | Some vs \<Rightarrow> first_arg args \<in> set vs)
            then call_warner w s else (Returned (), s)) of
        (Thrown e, s') \<Rightarrow> Some (Thrown e, object, s')
      | (Returned _, s') \<Rightarrow>
          (case call_host st [first_arg args] s' of (r, s'') \<Rightarrow> Some (r, object, s'')))"
| "call_fn (Suc k) (RenamedGet w newName) args object s =
     (case call_warner w s of
        (Thrown e, s') \<Rightarrow> Some (Thrown e, object, s')
      | (Returned _, s') \<Rightarrow> get k object newName s')"
| "call_fn (Suc k) (RenamedSet w newName) args object s =
     (case call_warner w s of
        (Thrown e, s') \<Rightarrow> Some (Thrown e, object, s')
      | (Returned _, s') \<Rightarrow>
          (case put k object newName (first_arg args) s' of
             None \<Rightarrow> None
           | Some (Thrown e, object', s'') \<Rightarrow> Some (Thrown e, object', s'')
           | Some (Returned _, object', s'') \<Rightarrow> Some (Returned Undefined, object', s'')))"

subsection \<open>Wrapped properties\<close>

text \<open>
  \<open>Object.getOwnPropertyDescriptor(v, name)\<close> for a value \<open>v\<close>: a \<open>TypeError\<close>
  (here \<open>None\<close>) for \<open>undefined\<close> and \<open>null\<close>; for a boolean or a number the
  descriptor of its wrapper object, which has no property of its own; for a string that
  of its wrapper, whose own properties are \<open>length\<close> and the indices of its
  characters; for a reference the own property of the host object.
\<close>

fun digit :: "char \<Rightarrow> nat option" where
  "digit c = (if c \<in> set ''0123456789'' then Some (of_char c - 48) else None)"

fun index_value :: "string \<Rightarrow> nat \<Rightarrow> nat option" where
  "index_value [] acc = Some acc"
| "index_value (c # cs) acc =
     (case digit c of None \<Rightarrow> None | Some d \<Rightarrow> index_value cs (10 * acc + d))"

definition array_index :: "string \<Rightarrow> nat option" where
  "array_index name =
     (case name of
        [] \<Rightarrow> None
      | c # cs \<Rightarrow> if c = CHR ''0'' \<and> cs \<noteq> [] then None else index_value name 0)"

definition string_own :: "string \<Rightarrow> string \<Rightarrow> hostfn property option" where
  "string_own str name =
     (if name = ''length'' then Some (Data (Num (int (length str))) False False)
      else
        (case array_index name of
           None \<Rightarrow> None
         | Some i \<Rightarrow> if i < length str then Some (Data (Str [str ! i]) False False) else None))"

fun own_descriptor :: "jsval \<Rightarrow> string \<Rightarrow> state \<Rightarrow> hostfn property option option" where
  "own_descriptor Undefined name s = None"
| "own_descriptor Null name s = None"
| "own_descriptor (Bool b) name s = Some None"
| "own_descriptor (Num n) name s = Some None"
| "own_descriptor (Str str) name s = Some (string_own str name)"
| "own_descriptor (Ref r) name s = Some (heap s r name)"

text \<open>
  \<open>removeProperty\<close> reads \<open>object.__proto__\<close> as it reads any property, and then
  the descriptor of the property on the value read. For an object whose chain ends in
  \<open>Object.prototype\<close> the read calls the getter of the host found there, which gives
  the prototype of the object; for an object whose chain does not reach
  \<open>Object.prototype\<close> the read gives \<open>undefined\<close>, unless the object or its chain
  has a property of that name. \<open>info.get\<close> and \<open>info.set\<close> are absent for a data
  property; the test \<open>!info.get || !info.set\<close> fails only when both are there. The
  function returns \<open>object\<close>; the result here is the object as it is afterwards. It
  takes the number of nested calls that the read may use.
\<close>

definition log_and_return :: "string \<Rightarrow> jsobj \<Rightarrow> state \<Rightarrow> unit outcome \<times> jsobj \<times> state" where
  "log_and_return message object s =
     (case log message s of
        (Thrown e, s') \<Rightarrow> (Thrown e, object, s')
      | (Returned _, s') \<Rightarrow> (Returned (), object, s'))"

definition removeProperty :: "nat \<Rightarrow> jsobj \<Rightarrow> string \<Rightarrow> jsval list option \<Rightarrow> state
    \<Rightarrow> (unit outcome \<times> jsobj \<times> state) option" where
  "removeProperty k object0 removedName onlyForValues s0 =
     (case get k object0 ''__proto__'' s0 of
        None \<Rightarrow> None
      | Some (Thrown e, object, s) \<Rightarrow> Some (Thrown e, object, s)
      | Some (Returned proto, object, s) \<Rightarrow>
          (case own_descriptor proto removedName s of
             None \<Rightarrow> Some (Thrown TypeError, object, s)
           | Some None \<Rightarrow>
               Some (log_and_return (''Unable to remove property '' @ sq # removedName @ sq #
                                     '' from an object that lacks it.'') object s)
           | Some (Some info) \<Rightarrow>
               (case (getter_of info, setter_of info) of
                  (Some g, Some st) \<Rightarrow>
                    (case warnOnce removedName None s of
                       (w, s') \<Rightarrow>
                         (case defineProperty object removedName
                                 (RemovedGet w g) (RemovedSet w st onlyForValues) (Some True) of
                            Thrown e \<Rightarrow> Some (Thrown e, object, s')
                          | Returned object' \<Rightarrow> Some (Returned (), object', s')))
                | _ \<Rightarrow>
                    Some (log_and_return (''Unable to remove property '' @ sq # removedName @ sq #
                                          '' from an object does not have a getter / setter'')
                            object s))))"

text \<open>
  \<open>renameProperty\<close> reads and writes the object when it migrates the value, so it
  takes the number of nested calls as \<open>get\<close> and \<open>put\<close> do.
\<close>

definition renameProperty :: "nat \<Rightarrow> jsobj \<Rightarrow> string \<Rightarrow> string \<Rightarrow> state
    \<Rightarrow> (unit outcome \<times> jsobj \<times> state) option" where
  "renameProperty k object oldName newName s =
     (case warnOnce oldName (Some newName) s of
        (w, s1) \<Rightarrow>
          (case (if has_property object oldName \<and> \<not> has_property object newName then
                   (case call_warner w s1 of
                      (Thrown e, s2) \<Rightarrow> Some (Thrown e, object, s2)
                    | (Returned _, s2) \<Rightarrow>
                        (case get k object oldName s2 of
                           None \<Rightarrow> None
                         | Some (Thrown e, object', s3) \<Rightarrow> Some (Thrown e, object', s3)
                         | Some (Returned v, object', s3) \<Rightarrow> put k object' newName v s3))
                 else Some (Returned Undefined, object, s1)) of
             None \<Rightarrow> None
           | Some (Thrown e, object', s') \<Rightarrow> Some (Thrown e, object', s')
           | Some (Returned _, object', s') \<Rightarrow>
               (case defineProperty object' oldName
                       (RenamedGet w newName) (RenamedSet w newName) None of
                  Thrown e \<Rightarrow> Some (Thrown e, object', s')
                | Returned object'' \<Rightarrow> Some (Returned (), object'', s'))))"

subsection \<open>Runs of several calls\<close>

text \<open>
  Between two calls the embedder may change the flags of the process and the handler.
  A run gives, for each call, the flags and the handler in force when it is made. An
  error thrown by one call of a run is caught by the caller: the run goes on.
\<close>

type_synonym env = "process \<times> handler option"

definition enter :: "env \<Rightarrow> state \<Rightarrow> state" where
  "enter e s = setHandler (snd e) (s\<lparr>proc := fst e\<rparr>)"

definition suppressed :: "env \<Rightarrow> bool" where
  "suppressed e = noDeprecation (fst e)"

fun fire_all :: "warner \<Rightarrow> env list \<Rightarrow> state \<Rightarrow> state" where
  "fire_all w [] s = s"
| "fire_all w (e # es) s = fire_all w es (snd (call_warner w (enter e s)))"

fun call_all :: "wrapper \<Rightarrow> (env \<times> jsval \<times> jsval list) list \<Rightarrow> state
    \<Rightarrow> jsval outcome list \<times> state" where
  "call_all w [] s = ([], s)"
| "call_all w ((e, this, args) # cs) s =
     (case call_wrapper w this args (enter e s) of
        (r, s') \<Rightarrow> (case call_all w cs s' of (rs, s'') \<Rightarrow> (r # rs, s'')))"

text \<open>
  The notices among the events, and the test that an event reports the message \<open>m\<close>
  on one of the four channels.
\<close>

fun is_notice :: "event \<Rightarrow> bool" where
  "is_notice (Handled h m) = True"
| "is_notice (Threw m) = True"
| "is_notice (Traced m) = True"
| "is_notice (Warned m) = True"
| "is_notice _ = False"

fun reports :: "string \<Rightarrow> event \<Rightarrow> bool" where
  "reports m (Handled h m') = (m' = m)"
| "reports m (Threw m') = (m' = m)"
| "reports m (Traced m') = (m' = m)"
| "reports m (Warned m') = (m' = ''(electron) '' @ m)"
| "reports m _ = False"

definition notices :: "event list \<Rightarrow> event list" where
  "notices es = filter is_notice es"

text \<open>
  A closure is armed in a state when a call of it would report. \<open>notice_event m s\<close>
  is the event that \<open>log\<close> adds for the message \<open>m\<close> in the state \<open>s\<close>, and
  \<open>sink_failure m s\<close> the error it throws, if any: that of the throw flag when there
  is no handler, that of the handler when there is one.
\<close>

fun armed :: "warner \<Rightarrow> state \<Rightarrow> bool" where
  "armed (Warner c m) s = (\<not> warned s c \<and> \<not> noDeprecation (proc s))"

definition notice_event :: "string \<Rightarrow> state \<Rightarrow> event" where
  "notice_event m s =
     (case deprecationHandler s of
        Some h \<Rightarrow> Handled (handler_id h) m
      | None \<Rightarrow>
          if throwDeprecation (proc s) then Threw m
          else if traceDeprecation (proc s) then Traced m
          else Warned (''(electron) '' @ m))"

definition sink_failure :: "string \<Rightarrow> state \<Rightarrow> error option" where
  "sink_failure m s =
     (case deprecationHandler s of
        Some h \<Rightarrow> handler_raises h m
      | None \<Rightarrow> if throwDeprecation (proc s) then Some (Error m) else None)"

text \<open>The state after an armed closure with variable \<open>c\<close> has reported \<open>m\<close>.\<close>

definition reported :: "nat \<Rightarrow> string \<Rightarrow> state \<Rightarrow> state" where
  "reported c m s = record_event (notice_event m s) (s\<lparr>warned := (warned s)(c := True)\<rparr>)"

fun message_of :: "warner \<Rightarrow> string" where
  "message_of (Warner c m) = m"

fun cell_of :: "warner \<Rightarrow> nat" where
  "cell_of (Warner c m) = c"

fun warner_of :: "wrapper \<Rightarrow> warner" where
  "warner_of (Discarding w f) = w"
| "warner_of (Forwarding w f) = w"

text \<open>What a wrapper without \<open>return\<close> makes of the outcome of the wrapped function.\<close>

fun discard :: "jsval outcome \<Rightarrow> jsval outcome" where
  "discard (Returned v) = Returned Undefined"
| "discard (Thrown e) = Thrown e"

text \<open>
  An event goes to the handler numbered \<open>n\<close> when it is not a notice on another
  channel, and a step from \<open>s\<close> to \<open>s'\<close> is routed to the handler \<open>h\<close> when \<open>h\<close>
  is still the handler, the events of \<open>s\<close> are still there and every event added goes
  to \<open>h\<close>.
\<close>

fun goes_to :: "nat \<Rightarrow> event \<Rightarrow> bool" where
  "goes_to n (Handled n' m) = (n' = n)"
| "goes_to n (Threw m) = False"
| "goes_to n (Traced m) = False"
| "goes_to n (Warned m) = False"
| "goes_to n _ = True"

definition routed :: "handler \<Rightarrow> state \<Rightarrow> state \<Rightarrow> bool" where
  "routed h s s' =
     (deprecationHandler s' = Some h
      \<and> take (length (events s)) (events s') = events s
      \<and> list_all (goes_to (handler_id h)) (drop (length (events s)) (events s')))"

text \<open>A closure, a renamed function or a removed function, made in \<open>s\<close> and then run.\<close>

definition warn_run :: "string \<Rightarrow> env list \<Rightarrow> state \<Rightarrow> state" where
  "warn_run msg es s = (case warnOnceMessage msg s of (w, s') \<Rightarrow> fire_all w es s')"

definition rename_run :: "jsfun \<Rightarrow> string \<Rightarrow> (env \<times> jsval \<times> jsval list) list \<Rightarrow> state
    \<Rightarrow> jsval outcome list \<times> state" where
  "rename_run f newName cs s = (case renameFunction f newName s of (wr, s') \<Rightarrow> call_all wr cs s')"

definition remove_run :: "jsfun \<Rightarrow> string \<Rightarrow> (env \<times> jsval \<times> jsval list) list \<Rightarrow> state
    \<Rightarrow> jsval outcome list \<times> state" where
  "remove_run f removedName cs s =
     (case removeFunction (Some f) removedName s of
        (Returned wr, s') \<Rightarrow> call_all wr cs s'
      | (Thrown e, s') \<Rightarrow> ([], s'))"

text \<open>Several emissions of one name, each under flags and a handler of its own.\<close>

fun emit_all :: "nat \<Rightarrow> emitter \<Rightarrow> string \<Rightarrow> (env \<times> jsval list) list \<Rightarrow> state
    \<Rightarrow> (unit outcome list \<times> state) option" where
  "emit_all k em name [] s = Some ([], s)"
| "emit_all k em name ((e, args) # xs) s =
     (case emit k em name args (enter e s) of
        None \<Rightarrow> None
      | Some (r, s') \<Rightarrow>
          (case emit_all k em name xs s' of
             None \<Rightarrow> None
           | Some (rs, s'') \<Rightarrow> Some (r # rs, s'')))"

text \<open>
  Plain listeners, plain listeners that return for an argument list, the events of
  calling plain listeners in order, and a state with events added.
\<close>

fun is_plain :: "listener \<Rightarrow> bool" where
  "is_plain (Plain n r) = True"
| "is_plain (Forwarder oldName w transformer) = False"

fun returning :: "jsval list \<Rightarrow> listener \<Rightarrow> bool" where
  "returning args (Plain n r) = (r args = None)"
| "returning args (Forwarder oldName w transformer) = False"

fun delivery :: "string \<Rightarrow> jsval list \<Rightarrow> listener \<Rightarrow> event list" where
  "delivery name args (Plain n r) = [Delivered n name args]"
| "delivery name args (Forwarder oldName w transformer) = []"

definition deliveries :: "listener list \<Rightarrow> string \<Rightarrow> jsval list \<Rightarrow> event list" where
  "deliveries ls name args = concat (map (delivery name args) ls)"

definition add_events :: "event list \<Rightarrow> state \<Rightarrow> state" where
  "add_events es s = s\<lparr>events := events s @ es\<rparr>"

text \<open>
  \<open>Object.defineProperty\<close> does not throw for a name that is free on an extensible
  object or whose own property is configurable.
\<close>

definition definable :: "jsobj \<Rightarrow> string \<Rightarrow> bool" where
  "definable object name =
     (case own object name of None \<Rightarrow> extensible object | Some d \<Rightarrow> configurable d)"

text \<open>
  The object that \<open>removeProperty\<close> is to leave behind on its success path, and the
  one that \<open>renameProperty\<close> is to leave behind: the value under the new name, the
  accessor pair under the old one.
\<close>

definition removed :: "jsobj \<Rightarrow> string \<Rightarrow> warner \<Rightarrow> hostfn \<Rightarrow> hostfn \<Rightarrow> jsval list option \<Rightarrow> jsobj" where
  "removed object name w g st onlyForValues =
     object\<lparr>own := (own object)(name \<mapsto> Accessor (Some (RemovedGet w g))
                                                 (Some (RemovedSet w st onlyForValues)) True)\<rparr>"

definition renamed :: "jsobj \<Rightarrow> string \<Rightarrow> string \<Rightarrow> warner \<Rightarrow> jsval \<Rightarrow> jsobj" where
  "renamed object oldName newName w v =
     object\<lparr>own := (own object)(newName \<mapsto> Data v True True,
                                  oldName \<mapsto> Accessor (Some (RenamedGet w newName))
                                                       (Some (RenamedSet w newName)) True)\<rparr>"

text \<open>
  \<open>removeProperty\<close> followed by a write of the name, and \<open>renameProperty\<close>
  followed by a read or a write of the old name.
\<close>

definition remove_then_put :: "nat \<Rightarrow> jsobj \<Rightarrow> string \<Rightarrow> jsval list option \<Rightarrow> env \<Rightarrow> jsval \<Rightarrow> state
    \<Rightarrow> (jsval outcome \<times> jsobj \<times> state) option" where
  "remove_then_put k ob name only e v s =
     (case removeProperty k ob name only s of
        None \<Rightarrow> None
      | Some (Thrown err, ob', s') \<Rightarrow> Some (Thrown err, ob', s')
      | Some (Returned _, ob', s') \<Rightarrow> put k ob' name v (enter e s'))"

definition rename_then_get :: "nat \<Rightarrow> jsobj \<Rightarrow> string \<Rightarrow> string \<Rightarrow> env \<Rightarrow> state
    \<Rightarrow> (jsval outcome \<times> jsobj \<times> state) option" where
  "rename_then_get k ob old new e s =
     (case renameProperty k ob old new s of
        None \<Rightarrow> None
      | Some (Thrown err, ob', s') \<Rightarrow> Some (Thrown err, ob', s')
      | Some (Returned _, ob', s') \<Rightarrow> get k ob' old (enter e s'))"

definition rename_then_put :: "nat \<Rightarrow> jsobj \<Rightarrow> string \<Rightarrow> string \<Rightarrow> env \<Rightarrow> jsval \<Rightarrow> state
    \<Rightarrow> (jsval outcome \<times> jsobj \<times> state) option" where
  "rename_then_put k ob old new e v s =
     (case renameProperty k ob old new s of
        None \<Rightarrow> None
      | Some (Thrown err, ob', s') \<Rightarrow> Some (Thrown err, ob', s')
      | Some (Returned _, ob', s') \<Rightarrow> put k ob' old v (enter e s'))"

definition property_after :: "string \<Rightarrow> ('a outcome \<times> jsobj \<times> state) option
    \<Rightarrow> closure property option" where
  "property_after name r = (case r of None \<Rightarrow> None | Some (x, ob, s) \<Rightarrow> lookup ob name)"

subsection \<open>Concrete inputs\<close>

definition quiet :: process where
  "quiet = \<lparr>noDeprecation = False, throwDeprecation = False, traceDeprecation = False\<rparr>"

definition suppressing_process :: process where
  "suppressing_process = quiet\<lparr>noDeprecation := True\<rparr>"

definition throwing_process :: process where
  "throwing_process = quiet\<lparr>throwDeprecation := True, traceDeprecation := True\<rparr>"

definition tracing_process :: process where
  "tracing_process = quiet\<lparr>traceDeprecation := True\<rparr>"

text \<open>A handler that returns, and one that throws for every message.\<close>

definition calm_handler :: handler where
  "calm_handler = Handler 7 (\<lambda>m. None)"

definition failing_handler :: handler where
  "failing_handler = Handler 8 (\<lambda>m. Some (Error ''handler failed''))"

text \<open>
  The prototype of the example object has an accessor property \<open>p\<close> of the host and a
  data property \<open>d\<close>; \<open>Object.prototype\<close> is given with its accessor \<open>__proto__\<close>
  alone. In the initial state the getter of \<open>__proto__\<close> gives the reference \<open>1\<close>,
  and the host object \<open>1\<close> is that prototype.
\<close>

definition example_prototype :: "string \<rightharpoonup> hostfn property" where
  "example_prototype =
     [''p'' \<mapsto> Accessor (Some (HostGetter 1 None)) (Some (HostSetter 1 (\<lambda>v. None))) True,
      ''d'' \<mapsto> Data (Num 5) True True]"

definition object_prototype :: "string \<rightharpoonup> hostfn property" where
  "object_prototype =
     [''__proto__'' \<mapsto> Accessor (Some (HostGetter 0 None)) (Some (HostSetter 0 (\<lambda>v. None))) True]"

definition initial :: state where
  "initial = \<lparr>deprecationHandler = None, proc = quiet, warned = (\<lambda>c. False), next_cell = 0,
              events = [], host = (\<lambda>n. Undefined)(0 := Ref 1),
              heap = (\<lambda>r. Map.empty)(1 := example_prototype)\<rparr>"

text \<open>A function named \<open>f\<close> that adds its two arguments.\<close>

definition example_fn :: jsfun where
  "example_fn = \<lparr>fname = ''f'',
     impl = (\<lambda>this args. case args of [Num a, Num b] \<Rightarrow> Returned (Num (a + b)) | _ \<Rightarrow> Returned Undefined)\<rparr>"

text \<open>An emitter with one plain listener, which returns, for each of two names.\<close>

definition example_emitter :: emitter where
  "example_emitter =
     (\<lambda>name. [])(''old'' := [Plain 1 (\<lambda>args. None)], ''new'' := [Plain 2 (\<lambda>args. None)])"

text \<open>
  An object \<open>{old: 5}\<close> with that prototype, and an object \<open>{old: 5}\<close> whose chain
  consists of one empty object and does not reach \<open>Object.prototype\<close>.
\<close>

definition example_object :: jsobj where
  "example_object =
     \<lparr>own = [''old'' \<mapsto> Data (Num 5) True True],
      protos = [example_prototype, object_prototype],
      extensible = True\<rparr>"

definition rootless_object :: jsobj where
  "rootless_object =
     \<lparr>own = [''old'' \<mapsto> Data (Num 5) True True],
      protos = [Map.empty],
      extensible = True\<rparr>"

section \<open>Properties\<close>

subsection \<open>What the sink and a closure leave unchanged\<close>

lemma log_frame:
  "warned (snd (log m s)) = warned s" "proc (snd (log m s)) = proc s"
  "deprecationHandler (snd (log m s)) = deprecationHandler s"
  "next_cell (snd (log m s)) = next_cell s" "host (snd (log m s)) = host s"
  "heap (snd (log m s)) = heap s"
  by (simp_all add: log_def record_event_def split: option.splits)

lemma log_events: "\<exists>n. events (snd (log m s)) = events s @ [n] \<and> reports m n \<and> is_notice n"
  by (simp add: log_def record_event_def split: option.splits)

lemma enter_frame:
  "warned (enter e s) = warned s" "events (enter e s) = events s"
  "proc (enter e s) = fst e" "deprecationHandler (enter e s) = snd e"
  by (simp_all add: enter_def setHandler_def)

lemma warnOnce_frame:
  "deprecationHandler (snd (warnOnce a b s)) = deprecationHandler s"
  "events (snd (warnOnce a b s)) = events s"
  "proc (snd (warnOnce a b s)) = proc s"
  "host (snd (warnOnce a b s)) = host s"
  "heap (snd (warnOnce a b s)) = heap s"
  by (simp_all add: warnOnce_def warnOnceMessage_def)

lemma notices_append: "notices (xs @ ys) = notices xs @ notices ys"
  by (simp add: notices_def)

subsection \<open>Runs of one closure\<close>

lemma fire_all_append: "fire_all w (xs @ ys) s = fire_all w ys (fire_all w xs s)"
  by (induction xs arbitrary: s) simp_all

lemma fire_all_spent:
  "warned s c \<Longrightarrow>
   events (fire_all (Warner c m) es s) = events s \<and> warned (fire_all (Warner c m) es s) c"
  by (induction es arbitrary: s) (simp_all add: enter_frame)

lemma fire_all_suppressed:
  "\<forall>e\<in>set es. suppressed e \<Longrightarrow>
   events (fire_all (Warner c m) es s) = events s
   \<and> warned (fire_all (Warner c m) es s) c = warned s c"
  by (induction es arbitrary: s) (simp_all add: enter_frame suppressed_def)

lemma fire_one:
  "\<not> warned s c \<Longrightarrow> \<not> suppressed e \<Longrightarrow>
   \<exists>n. events (snd (call_warner (Warner c m) (enter e s))) = events s @ [n] \<and> reports m n
     \<and> warned (snd (call_warner (Warner c m) (enter e s))) c"
  using log_events[of m "enter e s\<lparr>warned := (warned s)(c := True)\<rparr>"]
  by (auto simp add: enter_frame suppressed_def log_frame)

lemma fire_all_first:
  assumes "\<not> warned s c" "\<not> suppressed e"
  shows "\<exists>n. events (fire_all (Warner c m) (e # es) s) = events s @ [n] \<and> reports m n
     \<and> warned (fire_all (Warner c m) (e # es) s) c"
proof -
  let ?s = "snd (call_warner (Warner c m) (enter e s))"
  from fire_one[OF assms] obtain n where
    n: "events ?s = events s @ [n]" "reports m n" "warned ?s c"
    by blast
  from fire_all_spent[OF n(3), of m es] n(1,2) show ?thesis by simp
qed

lemma fire_all_at_most_once:
  "\<not> warned s c \<Longrightarrow>
   \<exists>ns. events (fire_all (Warner c m) es s) = events s @ ns \<and> length ns \<le> 1
     \<and> (\<forall>n\<in>set ns. reports m n)"
proof (induction es arbitrary: s)
  case Nil
  then show ?case by simp
next
  case (Cons e es)
  show ?case
  proof (cases "suppressed e")
    case True
    then have "snd (call_warner (Warner c m) (enter e s)) = enter e s"
      by (simp add: suppressed_def enter_frame)
    with Cons.IH[of "enter e s"] Cons.prems show ?thesis by (simp add: enter_frame)
  next
    case False
    from fire_all_first[OF Cons.prems False, of m es] obtain n where
      "events (fire_all (Warner c m) (e # es) s) = events s @ [n]" "reports m n"
      by blast
    then have "events (fire_all (Warner c m) (e # es) s) = events s @ [n] \<and> length [n] \<le> 1
      \<and> (\<forall>x\<in>set [n]. reports m x)"
      by simp
    then show ?thesis by blast
  qed
qed

lemma fire_all_split:
  assumes fresh: "\<not> warned s c" and pre: "\<forall>e\<in>set pre. suppressed e" and e: "\<not> suppressed e"
  shows "events (fire_all (Warner c m) pre s) = events s
   \<and> (\<exists>n. reports m n
        \<and> events (fire_all (Warner c m) (pre @ [e]) s) = events s @ [n]
        \<and> events (fire_all (Warner c m) (pre @ e # post) s) = events s @ [n])"
proof -
  let ?p = "fire_all (Warner c m) pre s"
  have p: "events ?p = events s" "\<not> warned ?p c"
    using fire_all_suppressed[OF pre, of c m s] fresh by simp_all
  let ?k = "snd (call_warner (Warner c m) (enter e ?p))"
  from fire_one[OF p(2) e, of m] obtain n where
    n: "events ?k = events s @ [n]" "reports m n" "warned ?k c"
    using p(1) by auto
  have "events (fire_all (Warner c m) post ?k) = events s @ [n]"
    using fire_all_spent[OF n(3), of m post] n(1) by simp
  with n p(1) show ?thesis by (auto simp: fire_all_append)
qed

lemma warn_run_eq:
  "warn_run msg es s = fire_all (Warner (next_cell s) msg) es
     (s\<lparr>warned := (warned s)(next_cell s := False), next_cell := Suc (next_cell s)\<rparr>)"
  by (simp add: warn_run_def warnOnceMessage_def)

text \<open>
  C1. Make a closure with \<open>warnOnceMessage M\<close> in any state and call it any number of
  times, each call under flags and a handler of its own. If there is at least one call
  and no call is made under suppression, the run adds exactly one event, a report of
  \<open>M\<close> on one of the channels of the sink. If every call is made under suppression,
  the run adds nothing. In every run the closure adds at most one event, a report of
  \<open>M\<close>.
\<close>

theorem warnOnceMessage_reports_once:
  "(es \<noteq> [] \<and> (\<forall>e\<in>set es. \<not> suppressed e) \<longrightarrow>
      (\<exists>n. events (warn_run M es s) = events s @ [n] \<and> reports M n))
   \<and> ((\<forall>e\<in>set es. suppressed e) \<longrightarrow> events (warn_run M es s) = events s)
   \<and> (\<exists>ns. events (warn_run M es s) = events s @ ns \<and> length ns \<le> 1
         \<and> (\<forall>n\<in>set ns. reports M n))"
proof (intro conjI impI)
  let ?s = "s\<lparr>warned := (warned s)(next_cell s := False), next_cell := Suc (next_cell s)\<rparr>"
  have fresh: "\<not> warned ?s (next_cell s)" by simp
  {
    assume "es \<noteq> [] \<and> (\<forall>e\<in>set es. \<not> suppressed e)"
    then obtain e es' where es: "es = e # es'" "\<not> suppressed e" by (cases es) auto
    from fire_all_first[OF fresh es(2), of M es'] es(1)
    show "\<exists>n. events (warn_run M es s) = events s @ [n] \<and> reports M n"
      by (auto simp: warn_run_eq)
  }
  {
    assume "\<forall>e\<in>set es. suppressed e"
    from fire_all_suppressed[OF this, of "next_cell s" M ?s]
    show "events (warn_run M es s) = events s" by (simp add: warn_run_eq)
  }
  from fire_all_at_most_once[OF fresh, of M es]
  show "\<exists>ns. events (warn_run M es s) = events s @ ns \<and> length ns \<le> 1
      \<and> (\<forall>n\<in>set ns. reports M n)"
    by (simp add: warn_run_eq)
qed

theorem warnOnceMessage_reports_once_witness:
  "events (warn_run ''m'' [(quiet, None), (tracing_process, Some calm_handler), (quiet, None)] initial)
     = [Warned ''(electron) m'']
   \<and> events (warn_run ''m'' [(suppressing_process, None), (suppressing_process, Some calm_handler)] initial)
     = []"
  using warnOnceMessage_reports_once
          [of "[(quiet, None), (tracing_process, Some calm_handler), (quiet, None)]" "''m''" initial]
        warnOnceMessage_reports_once
          [of "[(suppressing_process, None), (suppressing_process, Some calm_handler)]" "''m''" initial]
  by (simp add: warn_run_eq enter_def setHandler_def suppressed_def log_def record_event_def
      initial_def quiet_def tracing_process_def suppressing_process_def calm_handler_def)

text \<open>
  C2. A call of a closure leaves its variable \<open>warned\<close> set exactly when it was set
  before or the call is made with suppression off; no call of any closure clears it, and
  making another closure leaves it as it is.
  In a run whose first calls are all made under suppression and whose next call is made
  with suppression off, the suppressed calls add no event, that next call adds the one
  report of the message, and the calls after it add nothing.
\<close>

theorem suppressed_calls_keep_the_shot:
  "(warned (snd (call_warner (Warner c M) s)) c = (warned s c \<or> \<not> noDeprecation (proc s)))
   \<and> (warned s c \<longrightarrow> warned (snd (call_warner w s)) c)
   \<and> (c < next_cell s \<longrightarrow>
        warned (snd (warnOnceMessage m s)) c = warned s c \<and> c < next_cell (snd (warnOnceMessage m s)))
   \<and> ((\<forall>e\<in>set pre. suppressed e) \<and> \<not> suppressed e \<longrightarrow>
        events (warn_run M pre s0) = events s0
        \<and> (\<exists>n. reports M n
             \<and> events (warn_run M (pre @ [e]) s0) = events s0 @ [n]
             \<and> events (warn_run M (pre @ e # post) s0) = events s0 @ [n]))"
proof (intro conjI impI)
  show "warned (snd (call_warner (Warner c M) s)) c = (warned s c \<or> \<not> noDeprecation (proc s))"
    by (simp add: log_frame)
  show "warned s c \<Longrightarrow> warned (snd (call_warner w s)) c"
    by (cases w) (simp add: log_frame)
  show "c < next_cell s \<Longrightarrow> warned (snd (warnOnceMessage m s)) c = warned s c"
    by (simp add: warnOnceMessage_def)
  show "c < next_cell s \<Longrightarrow> c < next_cell (snd (warnOnceMessage m s))"
    by (simp add: warnOnceMessage_def)
next
  let ?s = "s0\<lparr>warned := (warned s0)(next_cell s0 := False), next_cell := Suc (next_cell s0)\<rparr>"
  assume a: "(\<forall>e\<in>set pre. suppressed e) \<and> \<not> suppressed e"
  have fresh: "\<not> warned ?s (next_cell s0)" by simp
  from a have pre: "\<forall>e\<in>set pre. suppressed e" and e: "\<not> suppressed e" by simp_all
  from fire_all_split[OF fresh pre e, of M post]
  show "events (warn_run M pre s0) = events s0" by (simp add: warn_run_eq)
  from fire_all_split[OF fresh pre e, of M post]
  show "\<exists>n. reports M n
      \<and> events (warn_run M (pre @ [e]) s0) = events s0 @ [n]
      \<and> events (warn_run M (pre @ e # post) s0) = events s0 @ [n]"
    by (simp add: warn_run_eq)
qed

theorem suppressed_calls_keep_the_shot_witness:
  "events (warn_run ''m'' [(suppressing_process, None), (suppressing_process, None)] initial) = []
   \<and> events (warn_run ''m''
        ([(suppressing_process, None), (suppressing_process, None)] @ [(quiet, Some calm_handler)]) initial)
       = [Handled 7 ''m'']
   \<and> events (warn_run ''m''
        ([(suppressing_process, None), (suppressing_process, None)] @ (quiet, Some calm_handler)
           # [(quiet, Some calm_handler), (quiet, None)]) initial)
       = [Handled 7 ''m'']"
  using suppressed_calls_keep_the_shot
          [where c = 0 and M = "''m''" and s = "snd (warnOnceMessage ''m'' initial)"
              and w = "Warner 0 ''m''" and m = "''n''"
              and pre = "[(suppressing_process, None), (suppressing_process, None)]"
              and e = "(quiet, Some calm_handler)" and ?s0.0 = initial
              and post = "[(quiet, Some calm_handler), (quiet, None)]"]
  by (simp add: warn_run_eq enter_def setHandler_def suppressed_def log_def record_event_def
      initial_def quiet_def suppressing_process_def calm_handler_def)

subsection \<open>Where the notices go\<close>

lemma routed_iff:
  "routed h s s' =
     (deprecationHandler s' = Some h
      \<and> (\<exists>new. events s' = events s @ new \<and> list_all (goes_to (handler_id h)) new))"
proof -
  have "(take (length (events s)) (events s') = events s
           \<and> list_all (goes_to (handler_id h)) (drop (length (events s)) (events s')))
        = (\<exists>new. events s' = events s @ new \<and> list_all (goes_to (handler_id h)) new)"
    (is "?l = ?r")
  proof
    assume l: ?l
    then have "events s' = events s @ drop (length (events s)) (events s')"
      by (metis append_take_drop_id)
    with l show ?r by blast
  next
    assume ?r
    then show ?l by auto
  qed
  then show ?thesis by (simp add: routed_def)
qed

lemma routed_refl: "deprecationHandler s = Some h \<Longrightarrow> routed h s s"
  by (simp add: routed_iff)

lemma routed_trans: "routed h s s' \<Longrightarrow> routed h s' s'' \<Longrightarrow> routed h s s''"
  by (auto simp: routed_iff)

lemma routed_handler: "routed h s s' \<Longrightarrow> deprecationHandler s' = Some h"
  by (simp add: routed_iff)

lemma routed_event:
  "deprecationHandler s = Some h \<Longrightarrow> goes_to (handler_id h) e \<Longrightarrow> routed h s (record_event e s)"
  by (simp add: routed_iff record_event_def)

lemma log_handled:
  "deprecationHandler s = Some h \<Longrightarrow>
   log m s = ((case handler_raises h m of None \<Rightarrow> Returned () | Some e \<Rightarrow> Thrown e),
              record_event (Handled (handler_id h) m) s)"
  by (simp add: log_def)

lemma log_routed: "deprecationHandler s = Some h \<Longrightarrow> routed h s (snd (log m s))"
  by (simp add: log_handled routed_event)

lemma warn_routed: "deprecationHandler s = Some h \<Longrightarrow> routed h s (snd (warn a b s))"
  by (simp add: warn_def log_routed routed_refl)

lemma call_warner_routed: "deprecationHandler s = Some h \<Longrightarrow> routed h s (snd (call_warner w s))"
  by (cases w) (simp add: log_handled routed_iff record_event_def)

lemma call_warner_routed':
  "deprecationHandler s = Some h \<Longrightarrow> call_warner w s = (r, s') \<Longrightarrow> routed h s s'"
  using call_warner_routed[of s h w] by simp

lemma apply_fn_routed:
  "deprecationHandler s = Some h \<Longrightarrow> routed h s (snd (apply_fn f this args s))"
  by (simp add: apply_fn_def routed_event)

lemma call_wrapper_routed:
  assumes h: "deprecationHandler s = Some h"
  shows "routed h s (snd (call_wrapper w this args s))"
proof -
  obtain wn f where wf: "w = Discarding wn f \<or> w = Forwarding wn f" by (cases w) auto
  obtain r s' where c: "call_warner wn s = (r, s')" by (cases "call_warner wn s")
  from call_warner_routed'[OF h c] have s': "routed h s s'" .
  from apply_fn_routed[OF routed_handler[OF s'], of f this args]
  have a: "routed h s (snd (apply_fn f this args s'))" using s' by (blast intro: routed_trans)
  show ?thesis
  proof (cases r)
    case (Thrown e)
    with wf c s' show ?thesis by auto
  next
    case (Returned u)
    with wf c a show ?thesis
      by (cases "apply_fn f this args s'"; cases "fst (apply_fn f this args s')") auto
  qed
qed

lemma emit_routed:
  "deprecationHandler s = Some h \<Longrightarrow> emit k em name args s = Some (r, s') \<Longrightarrow> routed h s s'"
  "deprecationHandler s = Some h \<Longrightarrow> run_listeners k em ls name args s = Some (r, s') \<Longrightarrow> routed h s s'"
  "deprecationHandler s = Some h \<Longrightarrow> call_listener k em l name args s = Some (r, s') \<Longrightarrow> routed h s s'"
proof (induction k em name args s and k em ls name args s and k em l name args s
       arbitrary: r s' and r s' and r s' rule: emit_run_listeners_call_listener.induct)
  case (1 emitter name args s)
  then show ?case by simp
next
  case (2 k emitter name args s)
  have "deprecationHandler (record_event (Emitted name args) s) = Some h"
    using 2(2) by (simp add: record_event_def)
  from 2(1)[OF this] 2(3) have "routed h (record_event (Emitted name args) s) s'"
    by simp
  moreover have "routed h s (record_event (Emitted name args) s)"
    using 2(2) by (simp add: routed_event)
  ultimately show ?case by (blast intro: routed_trans)
next
  case (3 k emitter name args s)
  then show ?case by (simp add: routed_refl)
next
  case (4 k emitter l ls name args s)
  from 4(4) obtain r1 s1 where c: "call_listener k emitter l name args s = Some (r1, s1)"
    by (cases "call_listener k emitter l name args s") auto
  from 4(1)[OF 4(3) c] have r1: "routed h s s1" .
  show ?case
  proof (cases r1)
    case (Thrown e)
    with 4(4) c r1 show ?thesis by simp
  next
    case (Returned u)
    with 4(4) c have "run_listeners k emitter ls name args s1 = Some (r, s')" by simp
    from 4(2)[OF c refl Returned routed_handler[OF r1] this] r1 show ?thesis
      by (blast intro: routed_trans)
  qed
next
  case (5 k emitter n rs name args s)
  then show ?case by (auto simp: routed_event)
next
  case (6 k emitter oldName w transformer name args s)
  show ?case
  proof (cases "listenerCount emitter oldName \<noteq> 0")
    case False
    with 6(2,3) show ?thesis by (simp add: routed_refl)
  next
    case True
    obtain r1 s1 where w: "call_warner w s = (r1, s1)" by (cases "call_warner w s")
    from call_warner_routed'[OF 6(2) w] have s1: "routed h s s1" .
    show ?thesis
    proof (cases r1)
      case (Thrown e)
      with 6(3) True w s1 show ?thesis by simp
    next
      case Ret: (Returned u)
      show ?thesis
      proof (cases "transformer args")
        case (Thrown e)
        with 6(3) True w Ret s1 show ?thesis by simp
      next
        case (Returned t)
        show ?thesis
        proof (cases t)
          case None
          with 6(3) True w Ret Returned s1 show ?thesis by simp
        next
          case (Some a)
          with 6(3) True w Ret Returned have "emit k emitter oldName a s1 = Some (r, s')" by simp
          from 6(1)[OF True w[symmetric] Ret _ _ routed_handler[OF s1] this] Returned Some s1
          show ?thesis by (blast intro: routed_trans)
        qed
      qed
    qed
  qed
qed

lemma call_host_routed:
  "deprecationHandler s = Some h \<Longrightarrow> routed h s (snd (call_host f args s))"
  by (cases f) (simp_all add: routed_iff record_event_def split: option.splits)

lemma call_host_routed':
  "deprecationHandler s = Some h \<Longrightarrow> call_host f args s = (v, s') \<Longrightarrow> routed h s s'"
  using call_host_routed[of s h f args] by simp


lemma get_routed:
  "deprecationHandler s = Some h \<Longrightarrow> get k ob name s = Some (r, ob', s') \<Longrightarrow> routed h s s'"
  "deprecationHandler s = Some h \<Longrightarrow> put k ob name v s = Some (r, ob', s') \<Longrightarrow> routed h s s'"
  "deprecationHandler s = Some h \<Longrightarrow> call_fn k f args ob s = Some (r, ob', s') \<Longrightarrow> routed h s s'"
proof (induction k ob name s and k ob name v s and k f args ob s
       arbitrary: r ob' s' and r ob' s' and r ob' s' rule: get_put_call_fn.induct)
  case (1 object name s)
  then show ?case by simp
next
  case (2 k object name s)
  then show ?case
    by (auto simp: routed_refl split: option.splits property.splits)
next
  case (3 object name v s)
  then show ?case by simp
next
  case (4 k object name v s)
  then show ?case
    by (auto simp: routed_refl split: option.splits property.splits if_splits outcome.splits)
next
  case (5 f args object s)
  then show ?case by simp
next
  case (6 k h' args object s)
  then show ?case by (auto split: prod.splits dest: call_host_routed')
next
  case (7 k w g args object s)
  obtain r1 s1 where w: "call_warner w s = (r1, s1)" by (cases "call_warner w s")
  from call_warner_routed'[OF 7(1) w] have s1: "routed h s s1" .
  show ?case
  proof (cases r1)
    case (Thrown e)
    with 7(2) w s1 show ?thesis by simp
  next
    case (Returned u)
    with 7(2) w obtain v where "call_host g [] s1 = (v, s')"
      by (auto split: prod.splits)
    from call_host_routed'[OF routed_handler[OF s1] this] s1 show ?thesis
      by (rule routed_trans[rotated])
  qed
next
  case (8 k w st onlyForValues args object s)
  let ?c = "if (case onlyForValues of None \<Rightarrow> True | Some vs \<Rightarrow> first_arg args \<in> set vs)
            then call_warner w s else (Returned (), s)"
  obtain r1 s1 where w: "?c = (r1, s1)" by (cases ?c)
  have "routed h s (snd ?c)"
    using call_warner_routed[OF 8(1), of w] routed_refl[OF 8(1)] by simp
  with w have s1: "routed h s s1" by simp
  show ?case
  proof (cases r1)
    case (Thrown e)
    with 8(2) w s1 show ?thesis by simp
  next
    case (Returned u)
    with 8(2) w obtain v where "call_host st [first_arg args] s1 = (v, s')"
      by (auto split: prod.splits)
    from call_host_routed'[OF routed_handler[OF s1] this] s1 show ?thesis
      by (rule routed_trans[rotated])
  qed
next
  case (9 k w newName args object s)
  obtain r1 s1 where w: "call_warner w s = (r1, s1)" by (cases "call_warner w s")
  from call_warner_routed'[OF 9(2) w] have s1: "routed h s s1" .
  show ?case
  proof (cases r1)
    case (Thrown e)
    with 9(3) w s1 show ?thesis by simp
  next
    case (Returned u)
    with 9(3) w have "get k object newName s1 = Some (r, ob', s')" by simp
    from 9(1)[OF w[symmetric] Returned routed_handler[OF s1] this] s1 show ?thesis
      by (rule routed_trans[rotated])
  qed
next
  case (10 k w newName args object s)
  obtain r1 s1 where w: "call_warner w s = (r1, s1)" by (cases "call_warner w s")
  from call_warner_routed'[OF 10(2) w] have s1: "routed h s s1" .
  show ?case
  proof (cases r1)
    case (Thrown e)
    with 10(3) w s1 show ?thesis by simp
  next
    case (Returned u)
    with 10(3) w obtain r2 where "put k object newName (first_arg args) s1 = Some (r2, ob', s')"
      by (auto split: option.splits outcome.splits)
    from 10(1)[OF w[symmetric] Returned routed_handler[OF s1] this] s1 show ?thesis
      by (rule routed_trans[rotated])
  qed
qed

lemma warnOnce_routed: "deprecationHandler s = Some h \<Longrightarrow> routed h s (snd (warnOnce a b s))"
  by (simp add: routed_iff warnOnce_frame)

lemma log_and_return_routed:
  "deprecationHandler s = Some h \<Longrightarrow> log_and_return m ob s = (r, ob', s') \<Longrightarrow> routed h s s'"
  using log_routed[of s h m]
  by (auto simp: log_and_return_def split: prod.splits outcome.splits)

lemma removeProperty_routed:
  assumes h: "deprecationHandler s = Some h"
    and r: "removeProperty k ob name only s = Some (r, ob', s')"
  shows "routed h s s'"
proof -
  from r obtain r1 ob1 s1 where g: "get k ob ''__proto__'' s = Some (r1, ob1, s1)"
    by (auto simp: removeProperty_def split: option.splits)
  from get_routed(1)[OF h g] have s1: "routed h s s1" .
  have "routed h s1 s'"
  proof (cases r1)
    case (Thrown e)
    with r g have "s' = s1" by (simp add: removeProperty_def)
    with s1 show ?thesis by (simp add: routed_refl routed_handler)
  next
    case (Returned v)
    with r g warnOnce_routed[OF routed_handler[OF s1], of name None]
      routed_refl[OF routed_handler[OF s1]] show ?thesis
      by (auto simp: removeProperty_def
          dest: log_and_return_routed[OF routed_handler[OF s1]]
          split: option.splits prod.splits outcome.splits)
  qed
  with s1 show ?thesis by (rule routed_trans)
qed

lemma renameProperty_routed:
  assumes h: "deprecationHandler s = Some h"
    and r: "renameProperty k ob old new s = Some (r, ob', s')"
  shows "routed h s s'"
proof -
  obtain w s1 where w: "warnOnce old (Some new) s = (w, s1)" by (cases "warnOnce old (Some new) s")
  with warnOnce_routed[OF h, of old "Some new"] have s1: "routed h s s1" by simp
  show ?thesis
  proof (cases "has_property ob old \<and> \<not> has_property ob new")
    case False
    with r w have "s' = s1"
      by (auto simp: renameProperty_def split: outcome.splits)
    with s1 show ?thesis by simp
  next
    case True
    obtain r2 s2 where c: "call_warner w s1 = (r2, s2)" by (cases "call_warner w s1")
    from call_warner_routed'[OF routed_handler[OF s1] c] have s2: "routed h s1 s2" .
    have "routed h s2 s'"
    proof (cases r2)
      case (Thrown e)
      with r w True c have "s' = s2" by (auto simp: renameProperty_def)
      with s2 show ?thesis by (simp add: routed_refl routed_handler)
    next
      case R2: (Returned u)
      with r w True c obtain r3 ob3 s3 where g: "get k ob old s2 = Some (r3, ob3, s3)"
        by (auto simp: renameProperty_def split: option.splits)
      from get_routed(1)[OF routed_handler[OF s2] g] have s3: "routed h s2 s3" .
      have "routed h s3 s'"
      proof (cases r3)
        case (Thrown e)
        with r w True c g R2 have "s' = s3" by (auto simp: renameProperty_def)
        with s3 show ?thesis by (simp add: routed_refl routed_handler)
      next
        case (Returned v)
        with r w True c g R2 obtain r4 ob4 where p: "put k ob3 new v s3 = Some (r4, ob4, s')"
          by (auto simp: renameProperty_def split: option.splits outcome.splits)
        from get_routed(2)[OF routed_handler[OF s3] p] show ?thesis .
      qed
      with s3 show ?thesis by (rule routed_trans)
    qed
    with s1 s2 show ?thesis by (blast intro: routed_trans)
  qed
qed

text \<open>
  C3. \<open>log\<close> takes the first rule that applies. With a handler set, the handler is
  called with the message and that is all \<open>log\<close> does: nothing of its own is thrown
  and nothing reaches the console, so that \<open>log\<close> returns when the handler returns
  (and an error raised by the handler itself is the outcome of \<open>log\<close>). Without a
  handler and with the throw flag set, an \<open>Error\<close> carrying the message is thrown.
  Without a handler and throw flag and with the trace flag set, the message is emitted
  with a stack trace. Otherwise the message, prefixed with \<open>(electron) \<close>, is emitted
  as a warning. After \<open>setHandler (Some h)\<close> the handler is \<open>h\<close>, and on every path
  of the module (\<open>log\<close>, \<open>warn\<close>, a closure, a wrapped function, an emission,
  reading and writing a wrapped property, \<open>removeProperty\<close>, \<open>renameProperty\<close>)
  every notice goes to \<open>h\<close>. After \<open>setHandler None\<close> there is no handler and
  \<open>log\<close> is back to the rules for the flags.
\<close>

theorem log_dispatch_order:
  "(deprecationHandler s = Some h \<longrightarrow>
        log m s = ((case handler_raises h m of None \<Rightarrow> Returned () | Some e \<Rightarrow> Thrown e),
                   record_event (Handled (handler_id h) m) s))
   \<and> (deprecationHandler s = Some h \<and> handler_raises h m = None \<longrightarrow>
        log m s = (Returned (), record_event (Handled (handler_id h) m) s))
   \<and> (deprecationHandler s = None \<and> throwDeprecation (proc s) \<longrightarrow>
        log m s = (Thrown (Error m), record_event (Threw m) s))
   \<and> (deprecationHandler s = None \<and> \<not> throwDeprecation (proc s) \<and> traceDeprecation (proc s) \<longrightarrow>
        log m s = (Returned (), record_event (Traced m) s))
   \<and> (deprecationHandler s = None \<and> \<not> throwDeprecation (proc s) \<and> \<not> traceDeprecation (proc s) \<longrightarrow>
        log m s = (Returned (), record_event (Warned (''(electron) '' @ m)) s))
   \<and> getHandler (setHandler (Some h) s) = Some h
   \<and> routed h (setHandler (Some h) s) (snd (log m (setHandler (Some h) s)))
   \<and> routed h (setHandler (Some h) s) (snd (warn a b (setHandler (Some h) s)))
   \<and> routed h (setHandler (Some h) s) (snd (call_warner w (setHandler (Some h) s)))
   \<and> routed h (setHandler (Some h) s) (snd (call_wrapper wr this args (setHandler (Some h) s)))
   \<and> (\<forall>r s'. emit k em name args (setHandler (Some h) s) = Some (r, s') \<longrightarrow>
         routed h (setHandler (Some h) s) s')
   \<and> (\<forall>r ob' s'. get k ob name (setHandler (Some h) s) = Some (r, ob', s') \<longrightarrow>
         routed h (setHandler (Some h) s) s')
   \<and> (\<forall>r ob' s'. put k ob name v (setHandler (Some h) s) = Some (r, ob', s') \<longrightarrow>
         routed h (setHandler (Some h) s) s')
   \<and> (\<forall>r ob' s'. removeProperty k ob name only (setHandler (Some h) s) = Some (r, ob', s') \<longrightarrow>
         routed h (setHandler (Some h) s) s')
   \<and> (\<forall>r ob' s'. renameProperty k ob name name' (setHandler (Some h) s) = Some (r, ob', s') \<longrightarrow>
         routed h (setHandler (Some h) s) s')
   \<and> getHandler (setHandler None (setHandler (Some h) s)) = None
   \<and> log m (setHandler None (setHandler (Some h) s)) = log m (setHandler None s)"
proof -
  have h: "deprecationHandler (setHandler (Some h) s) = Some h" by (simp add: setHandler_def)
  have 1: "setHandler None (setHandler (Some h) s) = setHandler None s" by (simp add: setHandler_def)
  show ?thesis
    apply (intro conjI allI impI)
                    apply (simp add: log_def)
                   apply (simp add: log_def)
                  apply (simp add: log_def)
                 apply (simp add: log_def)
                apply (simp add: log_def)
               apply (simp add: getHandler_def setHandler_def)
              apply (simp add: log_routed[OF h])
             apply (simp add: warn_routed[OF h])
            apply (simp add: call_warner_routed[OF h])
           apply (rule call_wrapper_routed[OF h])
          apply (erule emit_routed(1)[OF h])
         apply (erule get_routed(1)[OF h])
        apply (erule get_routed(2)[OF h])
       apply (erule removeProperty_routed[OF h])
      apply (erule renameProperty_routed[OF h])
     apply (simp add: getHandler_def setHandler_def)
    apply (simp add: 1)
    done
qed

theorem log_dispatch_order_witness:
  "log ''m'' (setHandler (Some calm_handler) (initial\<lparr>proc := throwing_process\<rparr>))
     = (Returned (), record_event (Handled 7 ''m'')
                       (setHandler (Some calm_handler) (initial\<lparr>proc := throwing_process\<rparr>)))
   \<and> log ''m'' (setHandler (Some failing_handler) initial)
     = (Thrown (Error ''handler failed''),
        record_event (Handled 8 ''m'') (setHandler (Some failing_handler) initial))
   \<and> log ''m'' (initial\<lparr>proc := throwing_process\<rparr>)
     = (Thrown (Error ''m''), record_event (Threw ''m'') (initial\<lparr>proc := throwing_process\<rparr>))
   \<and> log ''m'' (initial\<lparr>proc := tracing_process\<rparr>)
     = (Returned (), record_event (Traced ''m'') (initial\<lparr>proc := tracing_process\<rparr>))
   \<and> log ''m'' initial = (Returned (), record_event (Warned ''(electron) m'') initial)
   \<and> events (snd (warn ''a'' ''b'' (setHandler (Some calm_handler) (initial\<lparr>proc := throwing_process\<rparr>))))
     = [Handled 7 (sq # ''a'' @ sq # '' is deprecated. Use '' @ sq # ''b'' @ sq # '' instead.'')]"
  using log_dispatch_order[of "setHandler (Some calm_handler) (initial\<lparr>proc := throwing_process\<rparr>)"
      calm_handler "''m''"]
    log_dispatch_order[of "setHandler (Some failing_handler) initial" failing_handler "''m''"]
    log_dispatch_order[of "initial\<lparr>proc := throwing_process\<rparr>" calm_handler "''m''"]
    log_dispatch_order[of "initial\<lparr>proc := tracing_process\<rparr>" calm_handler "''m''"]
    log_dispatch_order[of "initial" calm_handler "''m''"]
    log_dispatch_order[of "initial\<lparr>proc := throwing_process\<rparr>" calm_handler "''m''" "''a''" "''b''"]
  by (simp add: initial_def quiet_def throwing_process_def tracing_process_def setHandler_def
      warn_def log_def record_event_def calm_handler_def failing_handler_def)

subsection \<open>Wrapped functions\<close>

lemma log_eq:
  "log m s = ((case sink_failure m s of None \<Rightarrow> Returned () | Some e \<Rightarrow> Thrown e),
              record_event (notice_event m s) s)"
  by (simp add: log_def sink_failure_def notice_event_def split: option.splits)

lemma notice_event_reports: "reports m (notice_event m s) \<and> is_notice (notice_event m s)"
  by (simp add: notice_event_def split: option.splits)

lemma reported_frame:
  "events (reported c m s) = events s @ [notice_event m s]"
  "warned (reported c m s) = (warned s)(c := True)"
  "deprecationHandler (reported c m s) = deprecationHandler s"
  "proc (reported c m s) = proc s"
  "next_cell (reported c m s) = next_cell s"
  "host (reported c m s) = host s"
  "heap (reported c m s) = heap s"
  by (simp_all add: reported_def record_event_def)

lemma call_warner_idle: "\<not> armed w s \<Longrightarrow> call_warner w s = (Returned (), s)"
  by (cases w) auto

lemma call_warner_armed:
  "armed (Warner c m) s \<Longrightarrow>
   call_warner (Warner c m) s
     = ((case sink_failure m s of None \<Rightarrow> Returned () | Some e \<Rightarrow> Thrown e), reported c m s)"
  by (simp add: log_eq reported_def sink_failure_def notice_event_def)

lemma wrapper_throws:
  "armed (Warner c m) s \<Longrightarrow> sink_failure m s = Some e \<Longrightarrow>
   call_wrapper (Forwarding (Warner c m) f) this args s = (Thrown e, reported c m s)
   \<and> call_wrapper (Discarding (Warner c m) f) this args s = (Thrown e, reported c m s)"
  using call_warner_armed[of c m s] by simp

lemma discarding_idle:
  "\<not> armed w s \<Longrightarrow>
   call_wrapper (Discarding w f) this args s
     = (discard (impl f this args), record_event (Applied (fname f) this args) s)"
  by (cases "impl f this args") (simp_all add: call_warner_idle apply_fn_def)

lemma forwarding_idle:
  "\<not> armed w s \<Longrightarrow>
   call_wrapper (Forwarding w f) this args s
     = (impl f this args, record_event (Applied (fname f) this args) s)"
  by (simp add: call_warner_idle apply_fn_def)

lemma discarding_reports:
  "armed (Warner c m) s \<Longrightarrow> sink_failure m s = None \<Longrightarrow>
   call_wrapper (Discarding (Warner c m) f) this args s
     = (discard (impl f this args), record_event (Applied (fname f) this args) (reported c m s))"
  using call_warner_armed[of c m s]
  by (cases "impl f this args") (simp_all add: apply_fn_def)

lemma forwarding_reports:
  "armed (Warner c m) s \<Longrightarrow> sink_failure m s = None \<Longrightarrow>
   call_wrapper (Forwarding (Warner c m) f) this args s
     = (impl f this args, record_event (Applied (fname f) this args) (reported c m s))"
  using call_warner_armed[of c m s]
  by (simp add: apply_fn_def)

lemma log_same_notice:
  "deprecationHandler s = deprecationHandler t \<Longrightarrow> proc s = proc t \<Longrightarrow>
   \<exists>n. is_notice n \<and> events (snd (log m s)) = events s @ [n] \<and> events (snd (log m t)) = events t @ [n]
     \<and> fst (log m s) = fst (log m t)"
  by (simp add: log_def record_event_def split: option.splits)

lemma wrapper_vs_warner:
  assumes w: "warned s = warned t" and n: "notices (events s) = notices (events t)"
    and h: "deprecationHandler s = deprecationHandler t" and p: "proc s = proc t"
  shows "warned (snd (call_wrapper wr this args s)) = warned (snd (call_warner (warner_of wr) t))
   \<and> notices (events (snd (call_wrapper wr this args s)))
       = notices (events (snd (call_warner (warner_of wr) t)))"
proof -
  obtain c m where wn: "warner_of wr = Warner c m" by (cases "warner_of wr")
  let ?s = "s\<lparr>warned := (warned s)(c := True)\<rparr>" and ?t = "t\<lparr>warned := (warned t)(c := True)\<rparr>"
  from log_same_notice[of ?s ?t m] h p obtain n' where
    n': "is_notice n'" "events (snd (log m ?s)) = events s @ [n']"
        "events (snd (log m ?t)) = events t @ [n']" "fst (log m ?s) = fst (log m ?t)"
    by auto
  have ws: "warned (snd (log m ?s)) = warned (snd (log m ?t))"
    using w by (simp add: log_frame)
  show ?thesis
  proof (cases wr)
    case (Discarding w' f)
    with wn have [simp]: "w' = Warner c m" by simp
    show ?thesis using Discarding w n p n' ws
      by (cases "log m ?s"; cases "log m ?t"; cases "impl f this args")
         (auto simp: apply_fn_def record_event_def notices_append notices_def
               split: outcome.splits)
  next
    case (Forwarding w' f)
    with wn have [simp]: "w' = Warner c m" by simp
    show ?thesis using Forwarding w n p n' ws
      by (cases "log m ?s"; cases "log m ?t")
         (auto simp: apply_fn_def record_event_def notices_append notices_def
               split: outcome.splits)
  qed
qed

lemma call_all_snd:
  "snd (call_all wr ((e, this, args) # cs) s)
     = snd (call_all wr cs (snd (call_wrapper wr this args (enter e s))))"
  by (simp split: prod.splits)

lemma call_all_vs_fire_all:
  "warned s = warned t \<Longrightarrow> notices (events s) = notices (events t) \<Longrightarrow>
   warned (snd (call_all wr cs s)) = warned (fire_all (warner_of wr) (map fst cs) t)
   \<and> notices (events (snd (call_all wr cs s))) = notices (events (fire_all (warner_of wr) (map fst cs) t))"
proof (induction cs arbitrary: s t)
  case Nil
  then show ?case by simp
next
  case (Cons c cs)
  obtain e this args where c: "c = (e, this, args)" by (cases c)
  let ?s = "snd (call_wrapper wr this args (enter e s))"
  let ?t = "snd (call_warner (warner_of wr) (enter e t))"
  have "warned ?s = warned ?t \<and> notices (events ?s) = notices (events ?t)"
    by (rule wrapper_vs_warner) (simp_all add: enter_frame Cons.prems)
  from Cons.IH[of ?s ?t] this show ?case
    unfolding c call_all_snd by simp
qed

text \<open>
  The notices of a run of a wrapper whose closure is fresh: none while the calls are
  suppressed, one from the first call that is not, none after it.
\<close>

lemma wrapper_run:
  assumes fresh: "\<not> warned s (cell_of (warner_of wr))"
  shows "((\<forall>x\<in>set pre. suppressed (fst x)) \<and> \<not> suppressed (fst x) \<longrightarrow>
        notices (events (snd (call_all wr pre s))) = notices (events s)
        \<and> (\<exists>n. reports (message_of (warner_of wr)) n
             \<and> notices (events (snd (call_all wr (pre @ [x]) s))) = notices (events s) @ [n]
             \<and> notices (events (snd (call_all wr (pre @ x # post) s))) = notices (events s) @ [n]))
   \<and> ((\<forall>x\<in>set cs. suppressed (fst x)) \<longrightarrow>
        notices (events (snd (call_all wr cs s))) = notices (events s))
   \<and> (\<exists>ns. notices (events (snd (call_all wr cs s))) = notices (events s) @ ns
        \<and> length ns \<le> 1 \<and> list_all (reports (message_of (warner_of wr))) ns)"
proof -
  obtain c msg where w: "warner_of wr = Warner c msg" by (cases "warner_of wr")
  with fresh have fresh': "\<not> warned s c" by simp
  have run: "\<And>cs. notices (events (snd (call_all wr cs s)))
               = notices (events (fire_all (Warner c msg) (map fst cs) s))"
    using call_all_vs_fire_all[of s s wr] w by simp
  have a: "(\<forall>x\<in>set pre. suppressed (fst x)) \<and> \<not> suppressed (fst x) \<longrightarrow>
        notices (events (snd (call_all wr pre s))) = notices (events s)
        \<and> (\<exists>n. reports msg n
             \<and> notices (events (snd (call_all wr (pre @ [x]) s))) = notices (events s) @ [n]
             \<and> notices (events (snd (call_all wr (pre @ x # post) s))) = notices (events s) @ [n])"
  proof
    assume h: "(\<forall>x\<in>set pre. suppressed (fst x)) \<and> \<not> suppressed (fst x)"
    then have "\<forall>e\<in>set (map fst pre). suppressed e" by simp
    from fire_all_split[OF fresh' this, of "fst x" msg "map fst post"] h
    obtain n where n: "reports msg n"
      "events (fire_all (Warner c msg) (map fst pre) s) = events s"
      "events (fire_all (Warner c msg) (map fst pre @ [fst x]) s) = events s @ [n]"
      "events (fire_all (Warner c msg) (map fst pre @ fst x # map fst post) s) = events s @ [n]"
      by auto
    have "is_notice n" using n(1) by (cases n) simp_all
    with n run[of pre] run[of "pre @ [x]"] run[of "pre @ x # post"]
    show "notices (events (snd (call_all wr pre s))) = notices (events s)
        \<and> (\<exists>n. reports msg n
             \<and> notices (events (snd (call_all wr (pre @ [x]) s))) = notices (events s) @ [n]
             \<and> notices (events (snd (call_all wr (pre @ x # post) s))) = notices (events s) @ [n])"
      by (auto simp: notices_append notices_def)
  qed
  have b: "(\<forall>x\<in>set cs. suppressed (fst x)) \<longrightarrow>
        notices (events (snd (call_all wr cs s))) = notices (events s)"
  proof
    assume "\<forall>x\<in>set cs. suppressed (fst x)"
    then have "\<forall>e\<in>set (map fst cs). suppressed e" by simp
    from fire_all_suppressed[OF this, of c msg s] run[of cs]
    show "notices (events (snd (call_all wr cs s))) = notices (events s)" by simp
  qed
  have c: "\<exists>ns. notices (events (snd (call_all wr cs s))) = notices (events s) @ ns
        \<and> length ns \<le> 1 \<and> list_all (reports msg) ns"
  proof -
    from fire_all_at_most_once[OF fresh', of msg "map fst cs"] obtain ns where
      ns: "events (fire_all (Warner c msg) (map fst cs) s) = events s @ ns" "length ns \<le> 1"
        "\<forall>n\<in>set ns. reports msg n"
      by blast
    have "\<forall>n\<in>set ns. is_notice n"
    proof
      fix n assume "n \<in> set ns"
      with ns(3) have "reports msg n" by simp
      then show "is_notice n" by (cases n) simp_all
    qed
    then have "notices ns = ns" by (simp add: notices_def)
    with ns run[of cs] have "notices (events (snd (call_all wr cs s))) = notices (events s) @ ns
        \<and> length ns \<le> 1 \<and> list_all (reports msg) ns"
      by (simp add: notices_append list_all_iff)
    then show ?thesis by blast
  qed
  from a b c w show ?thesis by simp
qed

lemma renameFunction_eq:
  "renameFunction f newName s =
     (Forwarding (Warner (next_cell s)
        (sq # fname f @ '' function'' @ sq # '' is deprecated and will be removed. Please use '' @
         sq # newName @ '' function'' @ sq # '' instead.'')) f,
      s\<lparr>warned := (warned s)(next_cell s := False), next_cell := Suc (next_cell s)\<rparr>)"
  by (simp add: renameFunction_def warnOnce_def warnOnceMessage_def)

lemma removeFunction_eq:
  "removeFunction (Some f) removedName s =
     (Returned (Discarding (Warner (next_cell s)
        (sq # fname f @ '' function'' @ sq # '' is deprecated and will be removed.'')) f),
      s\<lparr>warned := (warned s)(next_cell s := False), next_cell := Suc (next_cell s)\<rparr>)"
  by (simp add: removeFunction_def warnOnce_def warnOnceMessage_def)

text \<open>
  C4, as amended. An invocation of the wrapper returned by \<open>renameFunction fn newName\<close>
  with receiver \<open>this\<close> and arguments \<open>args\<close> calls \<open>fn\<close> with that receiver and
  those arguments and returns exactly what \<open>fn\<close> returns or throws, with one
  exception: when the closure is armed and reporting the warning throws (no handler and
  the throw flag set, or a handler that throws), the invocation throws that error, the
  closure has fired and \<open>fn\<close> is not called. The warning names \<open>fn\<close> and the new
  name. An armed invocation leaves the state \<open>reported c msg t\<close>: the closure has
  fired and the one notice is added, before the call of \<open>fn\<close>. In a run of one
  wrapper, the invocations made under suppression report nothing, the first invocation
  made with suppression off reports the warning once, and the invocations after it
  report nothing; no run reports more than once.
\<close>

theorem renameFunction_forwards:
  fixes f :: jsfun and newName :: string
  defines "msg \<equiv> sq # fname f @ '' function'' @ sq # '' is deprecated and will be removed. Please use '' @
         sq # newName @ '' function'' @ sq # '' instead.''"
  shows
  "fst (renameFunction f newName s) = Forwarding (Warner (next_cell s) msg) f
   \<and> \<not> warned (snd (renameFunction f newName s)) (next_cell s)
   \<and> (armed (Warner c msg) t \<and> sink_failure msg t = Some e \<longrightarrow>
        call_wrapper (Forwarding (Warner c msg) f) this args t = (Thrown e, reported c msg t))
   \<and> (armed (Warner c msg) t \<and> sink_failure msg t = None \<longrightarrow>
        call_wrapper (Forwarding (Warner c msg) f) this args t
          = (impl f this args, record_event (Applied (fname f) this args) (reported c msg t)))
   \<and> (\<not> armed (Warner c msg) t \<longrightarrow>
        call_wrapper (Forwarding (Warner c msg) f) this args t
          = (impl f this args, record_event (Applied (fname f) this args) t))
   \<and> events (reported c msg t) = events t @ [notice_event msg t]
   \<and> warned (reported c msg t) = (warned t)(c := True)
   \<and> reports msg (notice_event msg t)
   \<and> ((\<forall>x\<in>set pre. suppressed (fst x)) \<and> \<not> suppressed (fst x) \<longrightarrow>
        notices (events (snd (rename_run f newName pre s))) = notices (events s)
        \<and> (\<exists>n. reports msg n
             \<and> notices (events (snd (rename_run f newName (pre @ [x]) s))) = notices (events s) @ [n]
             \<and> notices (events (snd (rename_run f newName (pre @ x # post) s))) = notices (events s) @ [n]))
   \<and> ((\<forall>x\<in>set cs. suppressed (fst x)) \<longrightarrow>
        notices (events (snd (rename_run f newName cs s))) = notices (events s))
   \<and> (\<exists>ns. notices (events (snd (rename_run f newName cs s))) = notices (events s) @ ns
        \<and> length ns \<le> 1 \<and> list_all (reports msg) ns)"
proof -
  let ?w = "Warner (next_cell s) msg"
  let ?s = "s\<lparr>warned := (warned s)(next_cell s := False), next_cell := Suc (next_cell s)\<rparr>"
  have run: "\<And>cs. rename_run f newName cs s = call_all (Forwarding ?w f) cs ?s"
    by (simp add: rename_run_def renameFunction_eq msg_def)
  have "\<not> warned ?s (cell_of (warner_of (Forwarding ?w f)))" by simp
  from wrapper_run[OF this, of pre x post cs]
  have r: "((\<forall>x\<in>set pre. suppressed (fst x)) \<and> \<not> suppressed (fst x) \<longrightarrow>
        notices (events (snd (rename_run f newName pre s))) = notices (events s)
        \<and> (\<exists>n. reports msg n
             \<and> notices (events (snd (rename_run f newName (pre @ [x]) s))) = notices (events s) @ [n]
             \<and> notices (events (snd (rename_run f newName (pre @ x # post) s))) = notices (events s) @ [n]))
   \<and> ((\<forall>x\<in>set cs. suppressed (fst x)) \<longrightarrow>
        notices (events (snd (rename_run f newName cs s))) = notices (events s))
   \<and> (\<exists>ns. notices (events (snd (rename_run f newName cs s))) = notices (events s) @ ns
        \<and> length ns \<le> 1 \<and> list_all (reports msg) ns)"
    unfolding run by simp
  have c1: "fst (renameFunction f newName s) = Forwarding (Warner (next_cell s) msg) f"
    by (simp add: renameFunction_eq msg_def)
  have c2: "\<not> warned (snd (renameFunction f newName s)) (next_cell s)"
    by (simp add: renameFunction_eq)
  have c3: "armed (Warner c msg) t \<and> sink_failure msg t = Some e \<longrightarrow>
        call_wrapper (Forwarding (Warner c msg) f) this args t = (Thrown e, reported c msg t)"
    using wrapper_throws[of c msg t e f this args] by blast
  have c4: "armed (Warner c msg) t \<and> sink_failure msg t = None \<longrightarrow>
        call_wrapper (Forwarding (Warner c msg) f) this args t
          = (impl f this args, record_event (Applied (fname f) this args) (reported c msg t))"
    using forwarding_reports[of c msg t f this args] by blast
  have c5: "\<not> armed (Warner c msg) t \<longrightarrow>
        call_wrapper (Forwarding (Warner c msg) f) this args t
          = (impl f this args, record_event (Applied (fname f) this args) t)"
    using forwarding_idle[of "Warner c msg" t f this args] by blast
  have c6: "events (reported c msg t) = events t @ [notice_event msg t]"
    "warned (reported c msg t) = (warned t)(c := True)"
    "reports msg (notice_event msg t)"
    by (simp_all add: reported_frame notice_event_reports)
  from c1 c2 c3 c4 c5 c6 r show ?thesis by blast
qed

theorem renameFunction_forwards_witness:
  "rename_run example_fn ''g''
     [((quiet, Some calm_handler), Ref 1, [Num 1, Num 2]),
      ((quiet, Some calm_handler), Ref 1, [Num 3, Num 4])] initial
   = ([Returned (Num 3), Returned (Num 7)],
      snd (rename_run example_fn ''g''
        [((quiet, Some calm_handler), Ref 1, [Num 1, Num 2]),
         ((quiet, Some calm_handler), Ref 1, [Num 3, Num 4])] initial))
   \<and> events (snd (rename_run example_fn ''g''
        [((quiet, Some calm_handler), Ref 1, [Num 1, Num 2]),
         ((quiet, Some calm_handler), Ref 1, [Num 3, Num 4])] initial))
     = [Handled 7 (sq # ''f function'' @ sq # '' is deprecated and will be removed. Please use '' @
                   sq # ''g function'' @ sq # '' instead.''),
        Applied ''f'' (Ref 1) [Num 1, Num 2], Applied ''f'' (Ref 1) [Num 3, Num 4]]
   \<and> call_wrapper (fst (renameFunction example_fn ''g'' initial)) (Ref 1) [Num 1, Num 2]
       (enter (quiet, Some failing_handler) (snd (renameFunction example_fn ''g'' initial)))
     = (Thrown (Error ''handler failed''),
        reported 0 (sq # ''f function'' @ sq # '' is deprecated and will be removed. Please use '' @
                    sq # ''g function'' @ sq # '' instead.'')
          (enter (quiet, Some failing_handler) (snd (renameFunction example_fn ''g'' initial))))"
  using renameFunction_forwards
    [where f = example_fn and newName = "''g''" and s = initial and c = 0
       and t = "enter (quiet, Some calm_handler) (snd (renameFunction example_fn ''g'' initial))"
       and this = "Ref 1" and args = "[Num 1, Num 2]" and pre = "[]"
       and x = "((quiet, Some calm_handler), Ref 1, [Num 1, Num 2])"
       and post = "[((quiet, Some calm_handler), Ref 1, [Num 3, Num 4])]" and cs = "[]"]
    renameFunction_forwards
    [where f = example_fn and newName = "''g''" and s = initial and c = 0
       and t = "enter (quiet, Some failing_handler) (snd (renameFunction example_fn ''g'' initial))"
       and e = "Error ''handler failed''"
       and this = "Ref 1" and args = "[Num 1, Num 2]" and pre = "[]"
       and x = "((quiet, Some calm_handler), Ref 1, [Num 1, Num 2])"
       and post = "[]" and cs = "[]"]
  by (simp add: rename_run_def renameFunction_def warnOnce_def warnOnceMessage_def enter_def
      setHandler_def log_def record_event_def apply_fn_def example_fn_def initial_def quiet_def
      calm_handler_def failing_handler_def reported_def notice_event_def sink_failure_def)

theorem renameFunction_counterexample:
  "fst (rename_run example_fn ''g''
     [((suppressing_process, None), Ref 1, [Num 1, Num 2]),
      ((throwing_process, None), Ref 1, [Num 1, Num 2])] initial)
   = [Returned (Num 3),
      Thrown (Error (sq # ''f function'' @ sq # '' is deprecated and will be removed. Please use '' @
                     sq # ''g function'' @ sq # '' instead.''))]
   \<and> events (snd (rename_run example_fn ''g''
        [((suppressing_process, None), Ref 1, [Num 1, Num 2])] initial))
     = [Applied ''f'' (Ref 1) [Num 1, Num 2]]
   \<and> events (snd (rename_run example_fn ''g''
        [((suppressing_process, None), Ref 1, [Num 1, Num 2]),
         ((throwing_process, None), Ref 1, [Num 1, Num 2])] initial))
     = [Applied ''f'' (Ref 1) [Num 1, Num 2],
        Threw (sq # ''f function'' @ sq # '' is deprecated and will be removed. Please use '' @
               sq # ''g function'' @ sq # '' instead.'')]
   \<and> fst (rename_run example_fn ''g''
        [((quiet, Some failing_handler), Ref 1, [Num 1, Num 2])] initial)
     = [Thrown (Error ''handler failed'')]
   \<and> events (snd (rename_run example_fn ''g''
        [((quiet, Some failing_handler), Ref 1, [Num 1, Num 2])] initial))
     = [Handled 8 (sq # ''f function'' @ sq # '' is deprecated and will be removed. Please use '' @
                   sq # ''g function'' @ sq # '' instead.'')]"
  by (simp add: rename_run_def renameFunction_def warnOnce_def warnOnceMessage_def enter_def
      setHandler_def log_def record_event_def apply_fn_def example_fn_def initial_def quiet_def
      suppressing_process_def throwing_process_def failing_handler_def)

text \<open>
  C5, as amended. \<open>removeFunction\<close> throws at construction exactly when no function
  is passed, and the state is then as before. Otherwise it returns a wrapper around a
  fresh closure whose message names the function by its own name and suggests no
  replacement. Every invocation of the wrapper calls the closure first. When the closure
  is armed and reporting the warning throws (no handler and the throw flag set, or a
  handler that throws), the invocation throws that error, the closure has fired and the
  function is not called. When the closure is armed and reporting does not throw, the
  warning is reported once, the closure has fired, and the function is called with the
  receiver and the arguments of the invocation. When the closure is not armed, nothing
  is reported, the closure is as it was, and the function is called in the same way.
  Whatever the function returns, the wrapper returns \<open>undefined\<close>; an error thrown by
  the function is thrown by the wrapper. In a run of one wrapper, the invocations made
  under suppression report nothing, the first invocation made with suppression off
  reports the warning once, the invocations after it report nothing, and no run reports
  more than once. The wrappers of \<open>renameFunction\<close> and \<open>moveAPI\<close> are of the
  other kind: they return what the function returns.
\<close>

theorem removeFunction_wrapper:
  fixes f :: jsfun
  defines "msg \<equiv> sq # fname f @ '' function'' @ sq # '' is deprecated and will be removed.''"
  shows
  "((\<exists>e. fst (removeFunction fn removedName s) = Thrown e) \<longleftrightarrow> fn = None)
   \<and> removeFunction None removedName s
       = (Thrown (Error (sq # removedName @ '' function'' @ sq # '' is invalid or does not exist.'')), s)
   \<and> removeFunction (Some f) removedName s
       = (Returned (Discarding (Warner (next_cell s) msg) f),
          s\<lparr>warned := (warned s)(next_cell s := False), next_cell := Suc (next_cell s)\<rparr>)
   \<and> (armed (Warner c msg) t \<and> sink_failure msg t = Some e \<longrightarrow>
        call_wrapper (Discarding (Warner c msg) f) this args t = (Thrown e, reported c msg t))
   \<and> (armed (Warner c msg) t \<and> sink_failure msg t = None \<longrightarrow>
        call_wrapper (Discarding (Warner c msg) f) this args t
          = (discard (impl f this args), record_event (Applied (fname f) this args) (reported c msg t)))
   \<and> (\<not> armed (Warner c msg) t \<longrightarrow>
        call_wrapper (Discarding (Warner c msg) f) this args t
          = (discard (impl f this args), record_event (Applied (fname f) this args) t))
   \<and> events (reported c msg t) = events t @ [notice_event msg t]
   \<and> warned (reported c msg t) = (warned t)(c := True)
   \<and> reports msg (notice_event msg t)
   \<and> ((\<forall>x\<in>set pre. suppressed (fst x)) \<and> \<not> suppressed (fst x) \<longrightarrow>
        notices (events (snd (remove_run f removedName pre s))) = notices (events s)
        \<and> (\<exists>n. reports msg n
             \<and> notices (events (snd (remove_run f removedName (pre @ [x]) s))) = notices (events s) @ [n]
             \<and> notices (events (snd (remove_run f removedName (pre @ x # post) s))) = notices (events s) @ [n]))
   \<and> ((\<forall>x\<in>set cs. suppressed (fst x)) \<longrightarrow>
        notices (events (snd (remove_run f removedName cs s))) = notices (events s))
   \<and> (\<exists>ns. notices (events (snd (remove_run f removedName cs s))) = notices (events s) @ ns
        \<and> length ns \<le> 1 \<and> list_all (reports msg) ns)
   \<and> warner_of (fst (renameFunction f newName s)) = warner_of (fst (moveAPI f (fname f @ '' function'') (newName @ '' function'') s))
   \<and> fst (renameFunction f newName s) = Forwarding (warner_of (fst (renameFunction f newName s))) f
   \<and> fst (moveAPI f oldUsage newUsage s) = Forwarding (warner_of (fst (moveAPI f oldUsage newUsage s))) f
   \<and> (\<not> armed w t \<longrightarrow>
        call_wrapper (Forwarding w f) this args t
          = (impl f this args, record_event (Applied (fname f) this args) t))"
proof -
  let ?w = "Warner (next_cell s) msg"
  let ?s = "s\<lparr>warned := (warned s)(next_cell s := False), next_cell := Suc (next_cell s)\<rparr>"
  have run: "\<And>cs. remove_run f removedName cs s = call_all (Discarding ?w f) cs ?s"
    by (simp add: remove_run_def removeFunction_eq msg_def)
  have "\<not> warned ?s (cell_of (warner_of (Discarding ?w f)))" by simp
  from wrapper_run[OF this, of pre x post cs]
  have r: "((\<forall>x\<in>set pre. suppressed (fst x)) \<and> \<not> suppressed (fst x) \<longrightarrow>
        notices (events (snd (remove_run f removedName pre s))) = notices (events s)
        \<and> (\<exists>n. reports msg n
             \<and> notices (events (snd (remove_run f removedName (pre @ [x]) s))) = notices (events s) @ [n]
             \<and> notices (events (snd (remove_run f removedName (pre @ x # post) s))) = notices (events s) @ [n]))
   \<and> ((\<forall>x\<in>set cs. suppressed (fst x)) \<longrightarrow>
        notices (events (snd (remove_run f removedName cs s))) = notices (events s))
   \<and> (\<exists>ns. notices (events (snd (remove_run f removedName cs s))) = notices (events s) @ ns
        \<and> length ns \<le> 1 \<and> list_all (reports msg) ns)"
    unfolding run by simp
  have c0: "(\<exists>e. fst (removeFunction fn removedName s) = Thrown e) \<longleftrightarrow> fn = None"
    by (cases fn) (simp_all add: removeFunction_eq, simp add: removeFunction_def)
  have c1: "removeFunction None removedName s
       = (Thrown (Error (sq # removedName @ '' function'' @ sq # '' is invalid or does not exist.'')), s)"
    by (simp add: removeFunction_def)
  have c2: "removeFunction (Some f) removedName s
       = (Returned (Discarding (Warner (next_cell s) msg) f),
          s\<lparr>warned := (warned s)(next_cell s := False), next_cell := Suc (next_cell s)\<rparr>)"
    by (simp add: removeFunction_eq msg_def)
  have c3: "armed (Warner c msg) t \<and> sink_failure msg t = Some e \<longrightarrow>
        call_wrapper (Discarding (Warner c msg) f) this args t = (Thrown e, reported c msg t)"
    using wrapper_throws[of c msg t e f this args] by blast
  have c4: "armed (Warner c msg) t \<and> sink_failure msg t = None \<longrightarrow>
        call_wrapper (Discarding (Warner c msg) f) this args t
          = (discard (impl f this args), record_event (Applied (fname f) this args) (reported c msg t))"
    using discarding_reports[of c msg t f this args] by blast
  have c5: "\<not> armed (Warner c msg) t \<longrightarrow>
        call_wrapper (Discarding (Warner c msg) f) this args t
          = (discard (impl f this args), record_event (Applied (fname f) this args) t)"
    using discarding_idle[of "Warner c msg" t f this args] by blast
  have c6: "events (reported c msg t) = events t @ [notice_event msg t]"
    "warned (reported c msg t) = (warned t)(c := True)"
    "reports msg (notice_event msg t)"
    by (simp_all add: reported_frame notice_event_reports)
  have c7: "warner_of (fst (renameFunction f newName s))
      = warner_of (fst (moveAPI f (fname f @ '' function'') (newName @ '' function'') s))"
    by (simp add: renameFunction_def moveAPI_def split: prod.splits)
  have c8: "fst (renameFunction f newName s) = Forwarding (warner_of (fst (renameFunction f newName s))) f"
    by (simp add: renameFunction_def split: prod.splits)
  have c9: "fst (moveAPI f oldUsage newUsage s) = Forwarding (warner_of (fst (moveAPI f oldUsage newUsage s))) f"
    by (simp add: moveAPI_def split: prod.splits)
  have c10: "\<not> armed w t \<longrightarrow>
        call_wrapper (Forwarding w f) this args t
          = (impl f this args, record_event (Applied (fname f) this args) t)"
    using forwarding_idle[of w t f this args] by blast
  from c0 c1 c2 c3 c4 c5 c6 r c7 c8 c9 c10 show ?thesis by blast
qed

theorem removeFunction_wrapper_witness:
  "removeFunction None ''gone'' initial
     = (Thrown (Error (sq # ''gone function'' @ sq # '' is invalid or does not exist.'')), initial)
   \<and> fst (removeFunction (Some example_fn) ''gone'' initial)
     = Returned (Discarding (Warner 0 (sq # ''f function'' @ sq # '' is deprecated and will be removed.'')) example_fn)
   \<and> remove_run example_fn ''gone''
       [((quiet, None), Ref 1, [Num 1, Num 2]), ((quiet, None), Ref 1, [Num 3, Num 4])] initial
     = ([Returned Undefined, Returned Undefined],
        snd (remove_run example_fn ''gone''
          [((quiet, None), Ref 1, [Num 1, Num 2]), ((quiet, None), Ref 1, [Num 3, Num 4])] initial))
   \<and> events (snd (remove_run example_fn ''gone''
          [((quiet, None), Ref 1, [Num 1, Num 2]), ((quiet, None), Ref 1, [Num 3, Num 4])] initial))
     = [Warned (''(electron) '' @ sq # ''f function'' @ sq # '' is deprecated and will be removed.''),
        Applied ''f'' (Ref 1) [Num 1, Num 2], Applied ''f'' (Ref 1) [Num 3, Num 4]]
   \<and> warned (snd (remove_run example_fn ''gone''
          [((quiet, None), Ref 1, [Num 1, Num 2]), ((quiet, None), Ref 1, [Num 3, Num 4])] initial)) 0"
  using removeFunction_wrapper
    [where fn = "Some example_fn" and removedName = "''gone''" and s = initial and f = example_fn
       and c = 0 and t = "enter (quiet, None) (snd (removeFunction (Some example_fn) ''gone'' initial))"
       and this = "Ref 1" and args = "[Num 1, Num 2]" and pre = "[]"
       and x = "((quiet, None), Ref 1, [Num 1, Num 2])"
       and post = "[((quiet, None), Ref 1, [Num 3, Num 4])]" and cs = "[]"]
  by (simp add: remove_run_def removeFunction_def warnOnce_def warnOnceMessage_def enter_def
      setHandler_def log_def record_event_def apply_fn_def example_fn_def initial_def quiet_def)

theorem removeFunction_counterexample:
  "fst (removeFunction (Some example_fn) ''gone'' (initial\<lparr>proc := throwing_process\<rparr>))
     = Returned (Discarding (Warner 0 (sq # ''f function'' @ sq # '' is deprecated and will be removed.'')) example_fn)
   \<and> fst (call_wrapper
        (Discarding (Warner 0 (sq # ''f function'' @ sq # '' is deprecated and will be removed.'')) example_fn)
        (Ref 1) [Num 1, Num 2]
        (snd (removeFunction (Some example_fn) ''gone'' (initial\<lparr>proc := throwing_process\<rparr>))))
     = Thrown (Error (sq # ''f function'' @ sq # '' is deprecated and will be removed.''))
   \<and> events (snd (call_wrapper
        (Discarding (Warner 0 (sq # ''f function'' @ sq # '' is deprecated and will be removed.'')) example_fn)
        (Ref 1) [Num 1, Num 2]
        (snd (removeFunction (Some example_fn) ''gone'' (initial\<lparr>proc := throwing_process\<rparr>)))))
     = [Threw (sq # ''f function'' @ sq # '' is deprecated and will be removed.'')]
   \<and> fst (remove_run example_fn ''gone''
        [((quiet, Some failing_handler), Ref 1, [Num 1, Num 2])] initial)
     = [Thrown (Error ''handler failed'')]
   \<and> events (snd (remove_run example_fn ''gone''
        [((quiet, Some failing_handler), Ref 1, [Num 1, Num 2])] initial))
     = [Handled 8 (sq # ''f function'' @ sq # '' is deprecated and will be removed.'')]"
  by (simp add: remove_run_def removeFunction_def warnOnce_def warnOnceMessage_def enter_def
      setHandler_def log_def record_event_def apply_fn_def example_fn_def initial_def quiet_def
      throwing_process_def failing_handler_def)

subsection \<open>Renamed events\<close>

lemma add_events_simps [simp]:
  "add_events [] s = s"
  "add_events es (add_events es' s) = add_events (es' @ es) s"
  "record_event e s = add_events [e] s"
  "events (add_events es s) = events s @ es"
  "warned (add_events es s) = warned s"
  "proc (add_events es s) = proc s"
  "deprecationHandler (add_events es s) = deprecationHandler s"
  by (simp_all add: add_events_def record_event_def)

lemma deliveries_simps [simp]:
  "deliveries [] name args = []"
  "deliveries (l # ls) name args = delivery name args l @ deliveries ls name args"
  "deliveries (xs @ ys) name args = deliveries xs name args @ deliveries ys name args"
  by (simp_all add: deliveries_def)

lemma run_returning:
  "list_all (returning args) ls \<Longrightarrow>
   run_listeners k em ls name args s = Some (Returned (), add_events (deliveries ls name args) s)"
proof (induction ls arbitrary: s)
  case Nil
  then show ?case by simp
next
  case (Cons l ls)
  then show ?case by (cases l) simp_all
qed

lemma run_plain:
  "list_all is_plain ls \<Longrightarrow>
   \<exists>r ds. run_listeners k em ls name args s = Some (r, add_events ds s) \<and> notices ds = []"
proof (induction ls arbitrary: s)
  case Nil
  have "run_listeners k em [] name args s = Some (Returned (), add_events [] s) \<and> notices [] = []"
    by (simp add: notices_def)
  then show ?case by blast
next
  case (Cons l ls)
  then obtain n r where l: "l = Plain n r" by (cases l) auto
  show ?case
  proof (cases "r args")
    case None
    from Cons obtain r' ds where
      "run_listeners k em ls name args (add_events [Delivered n name args] s)
         = Some (r', add_events ds (add_events [Delivered n name args] s))" "notices ds = []"
      by fastforce
    with None l have "run_listeners k em (l # ls) name args s
        = Some (r', add_events (Delivered n name args # ds) s)
      \<and> notices (Delivered n name args # ds) = []"
      by (simp add: notices_def)
    then show ?thesis by blast
  next
    case (Some e)
    with l have "run_listeners k em (l # ls) name args s
        = Some (Thrown e, add_events [Delivered n name args] s)
      \<and> notices [Delivered n name args] = []"
      by (simp add: notices_def)
    then show ?thesis by blast
  qed
qed

lemma run_append:
  "run_listeners k em (xs @ ys) name args s =
     (case run_listeners k em xs name args s of
        None \<Rightarrow> None
      | Some (Thrown e, s') \<Rightarrow> Some (Thrown e, s')
      | Some (Returned _, s') \<Rightarrow> run_listeners k em ys name args s')"
  by (induction xs arbitrary: s) (auto split: option.splits outcome.splits)

lemma emit_returning:
  "list_all (returning args) (em name) \<Longrightarrow>
   emit (Suc k) em name args s
     = Some (Returned (), add_events (Emitted name args # deliveries (em name) name args) s)"
  by (simp add: run_returning)

text \<open>
  An emission on the new name of an emitter that holds the forwarder between plain
  listeners that return.
\<close>

lemma emit_forwarder:
  assumes new: "em new = pre @ Forwarder old w tr # post"
    and pre: "list_all (returning args) pre" and post: "list_all (returning args) post"
  shows "emit (Suc (Suc k)) em new args s =
     (if em old = [] then
        Some (Returned (), add_events (Emitted new args # deliveries pre new args
                                        @ deliveries post new args) s)
      else
        (case call_warner w (add_events (Emitted new args # deliveries pre new args) s) of
           (Thrown e, s') \<Rightarrow> Some (Thrown e, s')
         | (Returned _, s') \<Rightarrow>
             (case tr args of
                Thrown e \<Rightarrow> Some (Thrown e, s')
              | Returned None \<Rightarrow> Some (Returned (), add_events (deliveries post new args) s')
              | Returned (Some a) \<Rightarrow>
                  (case emit (Suc k) em old a s' of
                     None \<Rightarrow> None
                   | Some (Thrown e, s'') \<Rightarrow> Some (Thrown e, s'')
                   | Some (Returned _, s'') \<Rightarrow>
                       Some (Returned (), add_events (deliveries post new args) s'')))))"
proof -
  have "emit (Suc (Suc k)) em new args s
      = run_listeners (Suc k) em (pre @ Forwarder old w tr # post) new args
          (add_events [Emitted new args] s)"
    by (simp add: new)
  also have "\<dots> = run_listeners (Suc k) em (Forwarder old w tr # post) new args
          (add_events (Emitted new args # deliveries pre new args) s)"
    by (simp add: run_append run_returning[OF pre])
  also have "\<dots> = (if em old = [] then
        Some (Returned (), add_events (Emitted new args # deliveries pre new args
                                        @ deliveries post new args) s)
      else
        (case call_warner w (add_events (Emitted new args # deliveries pre new args) s) of
           (Thrown e, s') \<Rightarrow> Some (Thrown e, s')
         | (Returned _, s') \<Rightarrow>
             (case tr args of
                Thrown e \<Rightarrow> Some (Thrown e, s')
              | Returned None \<Rightarrow> Some (Returned (), add_events (deliveries post new args) s')
              | Returned (Some a) \<Rightarrow>
                  (case emit (Suc k) em old a s' of
                     None \<Rightarrow> None
                   | Some (Thrown e, s'') \<Rightarrow> Some (Thrown e, s'')
                   | Some (Returned _, s'') \<Rightarrow>
                       Some (Returned (), add_events (deliveries post new args) s'')))))"
    by (auto simp: run_returning[OF post] listenerCount_def
        simp del: emit.simps
        split: prod.splits outcome.splits option.splits)
  finally show ?thesis .
qed

lemma event_eq:
  "event em old new tr s =
     (on em new (Forwarder old
        (Warner (next_cell s)
           (if startsWith_dash new
            then sq # old @ '' event'' @ sq # '' is deprecated and will be removed.''
            else sq # old @ '' event'' @ sq # '' is deprecated and will be removed. Please use '' @
                 sq # new @ '' event'' @ sq # '' instead.''))
        (case tr of None \<Rightarrow> (\<lambda>args. Returned (Some args)) | Some t \<Rightarrow> t)),
      s\<lparr>warned := (warned s)(next_cell s := False), next_cell := Suc (next_cell s)\<rparr>)"
  by (simp add: event_def warnOnce_def warnOnceMessage_def)

lemma reported_add_events:
  "reported c m (add_events es s) = add_events (es @ [notice_event m s]) (s\<lparr>warned := (warned s)(c := True)\<rparr>)"
  by (simp add: reported_def add_events_def record_event_def notice_event_def)

text \<open>
  C6, as amended. \<open>event\<close> appends to the listeners of the new name a forwarder with
  a fresh closure, and changes nothing else. Let the new name be emitted on an emitter
  where that forwarder stands among plain listeners of the new name that return, some
  registered before it and some after it, and where the listeners of the old name are
  plain ones that return (so that the two names differ). With no listener for the old
  name nothing is reported and nothing is emitted under the old name. With a listener
  for the old name: if the closure is armed (not yet fired, suppression off) and
  reporting does not throw, the emission reports the warning once, the closure has
  fired, and the old name is emitted with the transformed arguments, which are the same
  arguments when no transformer is given; if the closure is not armed (fired, or
  suppression on) the emission reports nothing and emits the old name in the same way;
  if the closure is armed and reporting throws (no handler and the throw flag set, or a
  handler that throws) the emission throws that error, the closure has fired, and the old
  name is not emitted. When the transformer returns \<open>undefined\<close> the old name is not
  emitted, and when it throws the emission throws its error; the warning is reported
  before either.
\<close>

theorem event_forwards:
  fixes em E :: emitter and old new :: string
    and tr :: "(jsval list \<Rightarrow> jsval list option outcome) option" and s t :: state
    and args :: "jsval list" and pre post :: "listener list"
  defines "msg \<equiv> (if startsWith_dash new
            then sq # old @ '' event'' @ sq # '' is deprecated and will be removed.''
            else sq # old @ '' event'' @ sq # '' is deprecated and will be removed. Please use '' @
                 sq # new @ '' event'' @ sq # '' instead.'')"
    and "tr' \<equiv> (case tr of None \<Rightarrow> (\<lambda>args. Returned (Some args)) | Some f \<Rightarrow> f)"
    and "t0 \<equiv> add_events (Emitted new args # deliveries pre new args) t"
  assumes new: "E new = pre @ Forwarder old (Warner (next_cell s) msg) tr' # post"
    and pre: "list_all (returning args) pre" and post: "list_all (returning args) post"
  shows
  "event em old new tr s
     = (on em new (Forwarder old (Warner (next_cell s) msg) tr'),
        s\<lparr>warned := (warned s)(next_cell s := False), next_cell := Suc (next_cell s)\<rparr>)
   \<and> (tr = None \<longrightarrow> tr' args = Returned (Some args))
   \<and> (E old = [] \<longrightarrow>
        emit (Suc (Suc k)) E new args t
          = Some (Returned (), add_events (Emitted new args # deliveries pre new args
                                            @ deliveries post new args) t))
   \<and> (E old \<noteq> [] \<and> armed (Warner (next_cell s) msg) t \<and> sink_failure msg t = Some e \<longrightarrow>
        emit (Suc (Suc k)) E new args t = Some (Thrown e, reported (next_cell s) msg t0))
   \<and> (E old \<noteq> [] \<and> armed (Warner (next_cell s) msg) t \<and> sink_failure msg t = None
        \<and> tr' args = Returned (Some a) \<and> list_all (returning a) (E old) \<longrightarrow>
        emit (Suc (Suc k)) E new args t
          = Some (Returned (), add_events (Emitted old a # deliveries (E old) old a
                                            @ deliveries post new args)
                                 (reported (next_cell s) msg t0)))
   \<and> (E old \<noteq> [] \<and> \<not> armed (Warner (next_cell s) msg) t
        \<and> tr' args = Returned (Some a) \<and> list_all (returning a) (E old) \<longrightarrow>
        emit (Suc (Suc k)) E new args t
          = Some (Returned (), add_events (Emitted old a # deliveries (E old) old a
                                            @ deliveries post new args) t0))
   \<and> (E old \<noteq> [] \<and> armed (Warner (next_cell s) msg) t \<and> sink_failure msg t = None
        \<and> tr' args = Returned None \<longrightarrow>
        emit (Suc (Suc k)) E new args t
          = Some (Returned (), add_events (deliveries post new args) (reported (next_cell s) msg t0)))
   \<and> (E old \<noteq> [] \<and> \<not> armed (Warner (next_cell s) msg) t \<and> tr' args = Returned None \<longrightarrow>
        emit (Suc (Suc k)) E new args t
          = Some (Returned (), add_events (deliveries post new args) t0))
   \<and> (E old \<noteq> [] \<and> armed (Warner (next_cell s) msg) t \<and> sink_failure msg t = None
        \<and> tr' args = Thrown e \<longrightarrow>
        emit (Suc (Suc k)) E new args t = Some (Thrown e, reported (next_cell s) msg t0))
   \<and> (E old \<noteq> [] \<and> \<not> armed (Warner (next_cell s) msg) t \<and> tr' args = Thrown e \<longrightarrow>
        emit (Suc (Suc k)) E new args t = Some (Thrown e, t0))
   \<and> events t0 = events t @ Emitted new args # deliveries pre new args
   \<and> events (reported (next_cell s) msg t0) = events t0 @ [notice_event msg t]
   \<and> warned (reported (next_cell s) msg t0) = (warned t)(next_cell s := True)
   \<and> reports msg (notice_event msg t)"
proof -
  define c where "c = next_cell s"
  define w where "w = Warner c msg"
  have new': "E new = pre @ Forwarder old w tr' # post"
    using new by (simp add: w_def c_def)
  note E = emit_forwarder[where em = E and new = new and s = t and k = k,
      OF new' pre post, folded t0_def]
  have armed_t: "armed w t0 = armed w t" by (simp add: w_def t0_def)
  have fail_t: "sink_failure msg t0 = sink_failure msg t" by (simp add: sink_failure_def t0_def)
  have note_t: "notice_event msg t0 = notice_event msg t" by (simp add: notice_event_def t0_def)
  have idle: "\<not> armed w t \<Longrightarrow> call_warner w t0 = (Returned (), t0)"
    using call_warner_idle[of w t0] by (simp add: armed_t)
  have fire: "armed w t \<Longrightarrow> call_warner w t0
      = ((case sink_failure msg t of None \<Rightarrow> Returned () | Some e \<Rightarrow> Thrown e), reported c msg t0)"
    using call_warner_armed[of c msg t0] armed_t by (simp add: w_def fail_t)
  have re: "\<And>u. list_all (returning a) (E old) \<Longrightarrow>
      emit (Suc k) E old a u = Some (Returned (), add_events (Emitted old a # deliveries (E old) old a) u)"
    by (rule emit_returning)
  have c1: "event em old new tr s
     = (on em new (Forwarder old w tr'),
        s\<lparr>warned := (warned s)(next_cell s := False), next_cell := Suc (next_cell s)\<rparr>)"
    by (simp add: event_eq msg_def tr'_def w_def c_def)
  have c2: "tr = None \<longrightarrow> tr' args = Returned (Some args)" by (simp add: tr'_def)
  have c3: "E old = [] \<longrightarrow>
        emit (Suc (Suc k)) E new args t
          = Some (Returned (), add_events (Emitted new args # deliveries pre new args
                                            @ deliveries post new args) t)"
    using E by simp
  have c4: "E old \<noteq> [] \<and> armed w t \<and> sink_failure msg t = Some e \<longrightarrow>
        emit (Suc (Suc k)) E new args t = Some (Thrown e, reported c msg t0)"
    using E fire by simp
  have c5: "E old \<noteq> [] \<and> armed w t \<and> sink_failure msg t = None
        \<and> tr' args = Returned (Some a) \<and> list_all (returning a) (E old) \<longrightarrow>
        emit (Suc (Suc k)) E new args t
          = Some (Returned (), add_events (Emitted old a # deliveries (E old) old a
                                            @ deliveries post new args)
                                 (reported c msg t0))"
    using E fire re[of "reported c msg t0"] by (simp del: emit.simps)
  have c6: "E old \<noteq> [] \<and> \<not> armed w t
        \<and> tr' args = Returned (Some a) \<and> list_all (returning a) (E old) \<longrightarrow>
        emit (Suc (Suc k)) E new args t
          = Some (Returned (), add_events (Emitted old a # deliveries (E old) old a
                                            @ deliveries post new args) t0)"
    using E idle re[of t0] by (simp del: emit.simps)
  have c7: "E old \<noteq> [] \<and> armed w t \<and> sink_failure msg t = None
        \<and> tr' args = Returned None \<longrightarrow>
        emit (Suc (Suc k)) E new args t
          = Some (Returned (), add_events (deliveries post new args) (reported c msg t0))"
    using E fire by (simp del: emit.simps)
  have c8: "E old \<noteq> [] \<and> \<not> armed w t \<and> tr' args = Returned None \<longrightarrow>
        emit (Suc (Suc k)) E new args t
          = Some (Returned (), add_events (deliveries post new args) t0)"
    using E idle by (simp del: emit.simps)
  have c9: "E old \<noteq> [] \<and> armed w t \<and> sink_failure msg t = None
        \<and> tr' args = Thrown e \<longrightarrow>
        emit (Suc (Suc k)) E new args t = Some (Thrown e, reported c msg t0)"
    using E fire by (simp del: emit.simps)
  have c10: "E old \<noteq> [] \<and> \<not> armed w t \<and> tr' args = Thrown e \<longrightarrow>
        emit (Suc (Suc k)) E new args t = Some (Thrown e, t0)"
    using E idle by (simp del: emit.simps)
  have c11: "events t0 = events t @ Emitted new args # deliveries pre new args"
    by (simp add: t0_def)
  have c12: "events (reported c msg t0) = events t0 @ [notice_event msg t]"
    "warned (reported c msg t0) = (warned t)(c := True)"
    "reports msg (notice_event msg t)"
    by (simp_all add: reported_frame note_t notice_event_reports) (simp add: t0_def)
  from c1 c2 c3 c4 c5 c6 c7 c8 c9 c10 c11 c12 show ?thesis unfolding w_def c_def by blast
qed


lemmas run_defs = event_def warnOnce_def warnOnceMessage_def on_def listenerCount_def enter_def
  setHandler_def log_def record_event_def startsWith_dash_def example_emitter_def initial_def
  quiet_def suppressing_process_def throwing_process_def calm_handler_def failing_handler_def

theorem event_forwards_witness:
  "map_option fst
     (emit_all (Suc (Suc 0))
        (on (fst (event example_emitter ''old'' ''new'' None initial)) ''new'' (Plain 3 (\<lambda>args. None)))
        ''new'' [((quiet, Some calm_handler), [Num 5]), ((quiet, Some calm_handler), [Num 6])]
        (snd (event example_emitter ''old'' ''new'' None initial)))
     = Some [Returned (), Returned ()]
   \<and> map_option (events \<circ> snd)
       (emit_all (Suc (Suc 0))
          (on (fst (event example_emitter ''old'' ''new'' None initial)) ''new'' (Plain 3 (\<lambda>args. None)))
          ''new'' [((quiet, Some calm_handler), [Num 5]), ((quiet, Some calm_handler), [Num 6])]
          (snd (event example_emitter ''old'' ''new'' None initial)))
     = Some [Emitted ''new'' [Num 5], Delivered 2 ''new'' [Num 5],
             Handled 7 (sq # ''old event'' @ sq # '' is deprecated and will be removed. Please use '' @
                        sq # ''new event'' @ sq # '' instead.''),
             Emitted ''old'' [Num 5], Delivered 1 ''old'' [Num 5], Delivered 3 ''new'' [Num 5],
             Emitted ''new'' [Num 6], Delivered 2 ''new'' [Num 6],
             Emitted ''old'' [Num 6], Delivered 1 ''old'' [Num 6], Delivered 3 ''new'' [Num 6]]
   \<and> map_option (events \<circ> snd)
       (emit (Suc (Suc 0)) (fst (event (\<lambda>name. []) ''old'' ''new'' None initial)) ''new'' [Num 5]
         (snd (event (\<lambda>name. []) ''old'' ''new'' None initial)))
     = Some [Emitted ''new'' [Num 5]]
   \<and> map_option (events \<circ> snd)
       (emit (Suc (Suc 0))
         (fst (event example_emitter ''old'' ''new'' (Some (\<lambda>args. Returned None)) initial))
         ''new'' [Num 5]
         (snd (event example_emitter ''old'' ''new'' (Some (\<lambda>args. Returned None)) initial)))
     = Some [Emitted ''new'' [Num 5], Delivered 2 ''new'' [Num 5],
             Warned (''(electron) '' @ sq # ''old event'' @ sq #
                     '' is deprecated and will be removed. Please use '' @
                     sq # ''new event'' @ sq # '' instead.'')]
   \<and> emit (Suc (Suc 0)) (fst (event example_emitter ''old'' ''new'' None initial)) ''new'' [Num 5]
       (enter (quiet, Some failing_handler) (snd (event example_emitter ''old'' ''new'' None initial)))
     = Some (Thrown (Error ''handler failed''),
         reported 0 (sq # ''old event'' @ sq # '' is deprecated and will be removed. Please use '' @
                     sq # ''new event'' @ sq # '' instead.'')
           (add_events [Emitted ''new'' [Num 5], Delivered 2 ''new'' [Num 5]]
             (enter (quiet, Some failing_handler)
                (snd (event example_emitter ''old'' ''new'' None initial)))))"
  (is "?run")
proof -
  have run: ?run
    by (simp add: run_defs reported_def notice_event_def sink_failure_def del: add_events_simps(3))
       (simp add: add_events_def)
  let ?E = "on (fst (event example_emitter ''old'' ''new'' None initial)) ''new'' (Plain 3 (\<lambda>args. None))"
  let ?msg = "sq # ''old event'' @ sq # '' is deprecated and will be removed. Please use '' @
              sq # ''new event'' @ sq # '' instead.''"
  have new: "?E ''new'' = [Plain 2 (\<lambda>args. None)]
      @ Forwarder ''old'' (Warner (next_cell initial)
          (if startsWith_dash ''new''
           then sq # ''old'' @ '' event'' @ sq # '' is deprecated and will be removed.''
           else sq # ''old'' @ '' event'' @ sq # '' is deprecated and will be removed. Please use '' @
                sq # ''new'' @ '' event'' @ sq # '' instead.''))
          (case None of None \<Rightarrow> (\<lambda>args. Returned (Some args)) | Some f \<Rightarrow> f)
      # [Plain 3 (\<lambda>args. None)]"
    by (simp add: run_defs)
  have pre: "list_all (returning [Num 5]) [Plain 2 (\<lambda>args. None)]"
    and post: "list_all (returning [Num 5]) [Plain 3 (\<lambda>args. None)]"
    by simp_all
  from event_forwards[where E = ?E and new = "''new''" and old = "''old''" and s = initial
          and tr = None and pre = "[Plain 2 (\<lambda>args. None)]" and post = "[Plain 3 (\<lambda>args. None)]"
          and args = "[Num 5]" and em = example_emitter and k = 0 and a = "[Num 5]"
          and t = "enter (quiet, Some calm_handler) (snd (event example_emitter ''old'' ''new'' None initial))",
          OF new pre post]
  show ?thesis by - (rule run)
qed

theorem event_counterexample:
  "map_option fst (emit_all (Suc (Suc 0)) (fst (event example_emitter ''old'' ''new'' None initial)) ''new''
       [((suppressing_process, None), [Num 5]), ((throwing_process, None), [Num 6])]
       (snd (event example_emitter ''old'' ''new'' None initial)))
     = Some [Returned (),
             Thrown (Error (sq # ''old event'' @ sq # '' is deprecated and will be removed. Please use '' @
                            sq # ''new event'' @ sq # '' instead.''))]
   \<and> map_option (events \<circ> snd)
       (emit_all (Suc (Suc 0)) (fst (event example_emitter ''old'' ''new'' None initial)) ''new''
         [((suppressing_process, None), [Num 5]), ((throwing_process, None), [Num 6])]
         (snd (event example_emitter ''old'' ''new'' None initial)))
     = Some [Emitted ''new'' [Num 5], Delivered 2 ''new'' [Num 5],
             Emitted ''old'' [Num 5], Delivered 1 ''old'' [Num 5],
             Emitted ''new'' [Num 6], Delivered 2 ''new'' [Num 6],
             Threw (sq # ''old event'' @ sq # '' is deprecated and will be removed. Please use '' @
                    sq # ''new event'' @ sq # '' instead.'')]
   \<and> map_option (events \<circ> snd)
       (emit (Suc (Suc 0)) (fst (event example_emitter ''old'' ''new'' None initial)) ''new'' [Num 5]
         (enter (quiet, Some failing_handler) (snd (event example_emitter ''old'' ''new'' None initial))))
     = Some [Emitted ''new'' [Num 5], Delivered 2 ''new'' [Num 5],
             Handled 8 (sq # ''old event'' @ sq # '' is deprecated and will be removed. Please use '' @
                        sq # ''new event'' @ sq # '' instead.'')]"
  by (simp add: run_defs)

lemma notices_deliveries [simp]: "notices (deliveries ls name args) = []"
proof (induction ls)
  case Nil
  then show ?case by (simp add: notices_def)
next
  case (Cons l ls)
  then show ?case by (cases l) (simp_all add: notices_append, simp add: notices_def)
qed

lemma notices_Cons:
  "notices (e # es) = (if is_notice e then e # notices es else notices es)"
  by (simp add: notices_def)

lemma emit_plain:
  assumes "list_all is_plain (em name)"
  shows "\<exists>r ds. emit (Suc k) em name args s = Some (r, add_events ds s) \<and> notices ds = []"
proof -
  from run_plain[OF assms, where k = k and em = em and name = name and args = args
      and s = "add_events [Emitted name args] s"]
  obtain r ds where "run_listeners k em (em name) name args (add_events [Emitted name args] s)
      = Some (r, add_events ds (add_events [Emitted name args] s))" "notices ds = []"
    by blast
  then have "emit (Suc k) em name args s = Some (r, add_events (Emitted name args # ds) s)
      \<and> notices (Emitted name args # ds) = []"
    by (simp add: notices_Cons)
  then show ?thesis by blast
qed

text \<open>
  C7. When the new name starts with \<open>-\<close>, the closure that \<open>event\<close> makes carries
  the message without a replacement, \<open>'<oldName> event' is deprecated and will be
  removed.\<close>; otherwise it carries the message that suggests \<open>'<newName> event'\<close>. With
  the marker, a listener for the old name and an armed closure, the one notice of an
  emission of the new name reports the message without a replacement; this is stated for
  two distinct names on an emitter whose listeners before \<open>event\<close> are plain
  ones, those of the new name returning.
\<close>

theorem event_internal_marker:
  "(startsWith_dash new \<longrightarrow>
      fst (event em old new tr s) new
        = em new @ [Forwarder old
            (Warner (next_cell s) (sq # old @ '' event'' @ sq # '' is deprecated and will be removed.''))
            (case tr of None \<Rightarrow> (\<lambda>args. Returned (Some args)) | Some t \<Rightarrow> t)])
   \<and> (\<not> startsWith_dash new \<longrightarrow>
      fst (event em old new tr s) new
        = em new @ [Forwarder old
            (Warner (next_cell s)
              (sq # old @ '' event'' @ sq # '' is deprecated and will be removed. Please use '' @
               sq # new @ '' event'' @ sq # '' instead.''))
            (case tr of None \<Rightarrow> (\<lambda>args. Returned (Some args)) | Some t \<Rightarrow> t)])
   \<and> (startsWith_dash new \<and> list_all (returning args) (em new) \<and> list_all is_plain (em old)
        \<and> em old \<noteq> [] \<and> old \<noteq> new
        \<and> \<not> warned t (next_cell s) \<and> \<not> noDeprecation (proc t) \<longrightarrow>
      (\<exists>r t' n. emit (Suc (Suc k)) (fst (event em old new tr s)) new args t = Some (r, t')
         \<and> notices (drop (length (events t)) (events t')) = [n]
         \<and> reports (sq # old @ '' event'' @ sq # '' is deprecated and will be removed.'') n))"
proof (intro conjI impI)
  show "startsWith_dash new \<Longrightarrow>
      fst (event em old new tr s) new
        = em new @ [Forwarder old
            (Warner (next_cell s) (sq # old @ '' event'' @ sq # '' is deprecated and will be removed.''))
            (case tr of None \<Rightarrow> (\<lambda>args. Returned (Some args)) | Some t \<Rightarrow> t)]"
    by (simp add: event_eq on_def)
  show "\<not> startsWith_dash new \<Longrightarrow>
      fst (event em old new tr s) new
        = em new @ [Forwarder old
            (Warner (next_cell s)
              (sq # old @ '' event'' @ sq # '' is deprecated and will be removed. Please use '' @
               sq # new @ '' event'' @ sq # '' instead.''))
            (case tr of None \<Rightarrow> (\<lambda>args. Returned (Some args)) | Some t \<Rightarrow> t)]"
    by (simp add: event_eq on_def)
next
  let ?msg = "sq # old @ '' event'' @ sq # '' is deprecated and will be removed.''"
  let ?c = "next_cell s"
  let ?w = "Warner ?c ?msg"
  let ?tr = "case tr of None \<Rightarrow> (\<lambda>args. Returned (Some args)) | Some t \<Rightarrow> t"
  let ?em = "fst (event em old new tr s)"
  let ?t = "add_events (Emitted new args # deliveries (em new) new args) t"
  assume h: "startsWith_dash new \<and> list_all (returning args) (em new) \<and> list_all is_plain (em old)
    \<and> em old \<noteq> [] \<and> old \<noteq> new \<and> \<not> warned t (next_cell s) \<and> \<not> noDeprecation (proc t)"
  then have new: "?em new = em new @ Forwarder old ?w ?tr # []"
    and old: "?em old = em old"
    by (simp_all add: event_eq on_def)
  from h have pre: "list_all (returning args) (em new)" by simp
  have post: "list_all (returning args) []" by simp
  from h have os: "?em old \<noteq> []" "list_all is_plain (?em old)" by (simp_all add: old)
  from h have "armed ?w ?t" by simp
  from call_warner_armed[OF this] obtain r where
    w: "call_warner ?w ?t = (r, reported ?c ?msg ?t)"
    by simp
  let ?t1 = "reported ?c ?msg ?t"
  let ?n = "notice_event ?msg ?t"
  have t1: "events ?t1 = events ?t @ [?n]" by (simp add: reported_frame)
  have n: "is_notice ?n" "reports ?msg ?n" by (simp_all add: notice_event_reports)
  have E: "emit (Suc (Suc k)) ?em new args t =
     (case call_warner ?w ?t of
           (Thrown e, s') \<Rightarrow> Some (Thrown e, s')
         | (Returned _, s') \<Rightarrow>
             (case ?tr args of
                Thrown e \<Rightarrow> Some (Thrown e, s')
              | Returned None \<Rightarrow> Some (Returned (), add_events (deliveries [] new args) s')
              | Returned (Some a) \<Rightarrow>
                  (case emit (Suc k) ?em old a s' of
                     None \<Rightarrow> None
                   | Some (Thrown e, s'') \<Rightarrow> Some (Thrown e, s'')
                   | Some (Returned _, s'') \<Rightarrow>
                       Some (Returned (), add_events (deliveries [] new args) s''))))"
    using emit_forwarder[where em = ?em and new = new and s = t and k = k, OF new pre post] os(1)
    by (simp only: if_False)
  have "\<exists>r' t' rest. emit (Suc (Suc k)) ?em new args t = Some (r', t')
      \<and> events t' = events ?t1 @ rest \<and> notices rest = []"
  proof (cases r)
    case (Thrown e)
    with E w have "emit (Suc (Suc k)) ?em new args t = Some (Thrown e, ?t1)
      \<and> events ?t1 = events ?t1 @ [] \<and> notices [] = []"
      by (simp add: notices_def)
    then show ?thesis by blast
  next
    case (Returned u)
    show ?thesis
    proof (cases "?tr args")
      case Thr: (Thrown e)
      with E w Returned have "emit (Suc (Suc k)) ?em new args t = Some (Thrown e, ?t1)
        \<and> events ?t1 = events ?t1 @ [] \<and> notices [] = []"
        by (simp add: notices_def)
      then show ?thesis by blast
    next
      case Ret: (Returned x)
      show ?thesis
      proof (cases x)
        case None
        with E w Returned Ret have "emit (Suc (Suc k)) ?em new args t = Some (Returned (), ?t1)
          \<and> events ?t1 = events ?t1 @ [] \<and> notices [] = []"
          by (simp add: notices_def)
        then show ?thesis by blast
      next
        case (Some a)
        from emit_plain[where em = ?em and name = old and k = k and args = a and s = ?t1, OF os(2)] obtain r2 ds where
          e2: "emit (Suc k) ?em old a ?t1 = Some (r2, add_events ds ?t1)" "notices ds = []"
          by blast
        from Some E w Returned Ret e2 have "emit (Suc (Suc k)) ?em new args t
            = Some (r2, add_events ds ?t1)
          \<and> events (add_events ds ?t1) = events ?t1 @ ds \<and> notices ds = []"
          by (cases r2) (simp_all del: emit.simps)
        then show ?thesis by blast
      qed
    qed
  qed
  then obtain r' t' rest where
    r: "emit (Suc (Suc k)) ?em new args t = Some (r', t')" "events t' = events ?t1 @ rest"
       "notices rest = []"
    by blast
  have "notices (drop (length (events t)) (events t')) = [?n]"
    using r(2,3) t1 n(1) by (simp add: notices_append notices_Cons)
  with r(1) n(2)
  show "\<exists>r t' n. emit (Suc (Suc k)) ?em new args t = Some (r, t')
         \<and> notices (drop (length (events t)) (events t')) = [n] \<and> reports ?msg n"
    by blast
qed

theorem event_internal_marker_witness:
  "fst (event example_emitter ''old'' ''-new'' None initial) ''-new''
     = [Forwarder ''old''
          (Warner 0 (sq # ''old event'' @ sq # '' is deprecated and will be removed.''))
          (\<lambda>args. Returned (Some args))]
   \<and> fst (event example_emitter ''old'' ''new'' None initial) ''new''
     = [Plain 2 (\<lambda>args. None),
        Forwarder ''old''
          (Warner 0 (sq # ''old event'' @ sq # '' is deprecated and will be removed. Please use '' @
                     sq # ''new event'' @ sq # '' instead.''))
          (\<lambda>args. Returned (Some args))]
   \<and> map_option (events \<circ> snd)
       (emit (Suc (Suc 0)) (fst (event example_emitter ''old'' ''-new'' None initial)) ''-new'' [Num 5]
         (snd (event example_emitter ''old'' ''-new'' None initial)))
     = Some [Emitted ''-new'' [Num 5],
             Warned (''(electron) '' @ sq # ''old event'' @ sq # '' is deprecated and will be removed.''),
             Emitted ''old'' [Num 5], Delivered 1 ''old'' [Num 5]]"
  (is "?run")
proof -
  have run: ?run by (simp add: run_defs)
  from event_internal_marker[where new = "''-new''" and em = example_emitter and old = "''old''"
         and tr = None and s = initial and k = 0 and args = "[Num 5]"
         and t = "snd (event example_emitter ''old'' ''-new'' None initial)"]
       event_internal_marker[where new = "''new''" and em = example_emitter and old = "''old''"
         and tr = None and s = initial]
  show ?thesis by - (rule run)
qed

subsection \<open>Removed and renamed properties\<close>

lemma log_and_return_eq:
  "log_and_return m ob s =
     ((case sink_failure m s of None \<Rightarrow> Returned () | Some e \<Rightarrow> Thrown e), ob,
      record_event (notice_event m s) s)"
  by (simp add: log_and_return_def log_eq del: add_events_simps(3) split: option.splits)

lemma removeProperty_read:
  "get k ob ''__proto__'' s = Some (Returned v, ob1, s1) \<Longrightarrow>
   removeProperty k ob name only s =
     (case own_descriptor v name s1 of
        None \<Rightarrow> Some (Thrown TypeError, ob1, s1)
      | Some None \<Rightarrow>
          Some (log_and_return (''Unable to remove property '' @ sq # name @ sq #
                                '' from an object that lacks it.'') ob1 s1)
      | Some (Some info) \<Rightarrow>
          (case (getter_of info, setter_of info) of
             (Some g, Some st) \<Rightarrow>
               (case warnOnce name None s1 of
                  (w, s') \<Rightarrow>
                    (case defineProperty ob1 name (RemovedGet w g) (RemovedSet w st only) (Some True) of
                       Thrown e \<Rightarrow> Some (Thrown e, ob1, s')
                     | Returned object' \<Rightarrow> Some (Returned (), object', s')))
           | _ \<Rightarrow>
               Some (log_and_return (''Unable to remove property '' @ sq # name @ sq #
                                     '' from an object does not have a getter / setter'') ob1 s1)))"
  by (simp add: removeProperty_def)

lemma get_absent:
  "lookup ob name = None \<Longrightarrow> get (Suc k) ob name s = Some (Returned Undefined, ob, s)"
  by simp

lemma get_host:
  "lookup ob name = Some (Accessor (Some (Host (HostGetter n None))) st c) \<Longrightarrow>
   get (Suc (Suc k)) ob name s = Some (Returned (host s n), ob, record_event (HostGet n) s)"
  by (simp del: add_events_simps(3))

lemma own_descriptor_none: "(own_descriptor v name s = None) = (v = Undefined \<or> v = Null)"
  by (cases v) simp_all

text \<open>
  C8, as amended. \<open>removeProperty\<close> reads \<open>object.__proto__\<close> and then the own
  property of that name on the value read. When the read gives a value that lacks the
  property, or holds it without a getter or without a setter, \<open>removeProperty\<close> leaves
  the object as the read left it, reports exactly one diagnostic through the sink and
  changes nothing else in the state. It returns the object unless reporting throws (no
  handler and the throw flag set, or a handler that throws): then that error is thrown to
  the caller. When the read gives \<open>undefined\<close> or \<open>null\<close>, as for an object whose
  chain does not reach \<open>Object.prototype\<close> and has no property \<open>__proto__\<close>, a
  \<open>TypeError\<close> is thrown and nothing is reported; when the read throws, its error is
  thrown and nothing is reported. For an object that finds the getter of the host under
  \<open>__proto__\<close>, the read calls that getter and leaves the object as it is.
\<close>

theorem removeProperty_soft_failure:
  fixes ob :: jsobj and name :: string
  defines "lacks \<equiv> ''Unable to remove property '' @ sq # name @ sq # '' from an object that lacks it.''"
    and "plain \<equiv> ''Unable to remove property '' @ sq # name @ sq #
                  '' from an object does not have a getter / setter''"
  shows
  "(get k ob ''__proto__'' s = Some (Returned v, ob1, s1) \<and> own_descriptor v name s1 = Some d
      \<and> (d = None \<or> (\<exists>info. d = Some info \<and> (getter_of info = None \<or> setter_of info = None))) \<longrightarrow>
      removeProperty k ob name only s
        = Some ((case sink_failure (if d = None then lacks else plain) s1 of
                   None \<Rightarrow> Returned () | Some e \<Rightarrow> Thrown e),
                ob1, record_event (notice_event (if d = None then lacks else plain) s1) s1)
      \<and> reports (if d = None then lacks else plain)
                (notice_event (if d = None then lacks else plain) s1))
   \<and> (get k ob ''__proto__'' s = Some (Returned v, ob1, s1) \<and> (v = Undefined \<or> v = Null) \<longrightarrow>
        removeProperty k ob name only s = Some (Thrown TypeError, ob1, s1))
   \<and> (get k ob ''__proto__'' s = Some (Thrown e, ob1, s1) \<longrightarrow>
        removeProperty k ob name only s = Some (Thrown e, ob1, s1))
   \<and> (lookup ob ''__proto__'' = None \<longrightarrow>
        removeProperty (Suc k) ob name only s = Some (Thrown TypeError, ob, s))
   \<and> (lookup ob ''__proto__'' = Some (Accessor (Some (Host (HostGetter n None))) st c)
        \<and> host s n = Ref r
        \<and> (heap s r name = None
           \<or> (\<exists>info. heap s r name = Some info \<and> (getter_of info = None \<or> setter_of info = None))) \<longrightarrow>
        removeProperty (Suc (Suc k)) ob name only s
          = Some ((case sink_failure (if heap s r name = None then lacks else plain) s of
                     None \<Rightarrow> Returned () | Some e \<Rightarrow> Thrown e),
                  ob,
                  add_events [HostGet n,
                              notice_event (if heap s r name = None then lacks else plain) s] s))"
proof -
  have main: "removeProperty k ob name only s
        = Some ((case sink_failure (if d = None then lacks else plain) s1 of
                   None \<Rightarrow> Returned () | Some e \<Rightarrow> Thrown e),
                ob1, record_event (notice_event (if d = None then lacks else plain) s1) s1)"
    if read: "get k ob ''__proto__'' s = Some (Returned v, ob1, s1)"
      and desc: "own_descriptor v name s1 = Some d"
      and shape: "d = None \<or> (\<exists>info. d = Some info \<and> (getter_of info = None \<or> setter_of info = None))"
    for k s v ob1 s1 d
  proof (cases d)
    case None
    then show ?thesis
      using removeProperty_read[OF read, of name only] desc
      by (simp add: log_and_return_eq lacks_def del: add_events_simps(3))
  next
    case (Some info)
    with shape have "getter_of info = None \<or> setter_of info = None" by simp
    with Some show ?thesis
      using removeProperty_read[OF read, of name only] desc
      by (auto simp add: log_and_return_eq plain_def simp del: add_events_simps(3)
          split: option.splits)
  qed
  have c1: "get k ob ''__proto__'' s = Some (Returned v, ob1, s1) \<and> own_descriptor v name s1 = Some d
      \<and> (d = None \<or> (\<exists>info. d = Some info \<and> (getter_of info = None \<or> setter_of info = None))) \<longrightarrow>
      removeProperty k ob name only s
        = Some ((case sink_failure (if d = None then lacks else plain) s1 of
                   None \<Rightarrow> Returned () | Some e \<Rightarrow> Thrown e),
                ob1, record_event (notice_event (if d = None then lacks else plain) s1) s1)
      \<and> reports (if d = None then lacks else plain)
                (notice_event (if d = None then lacks else plain) s1)"
    using main[of k s v ob1 s1 d] notice_event_reports by blast
  have c2: "get k ob ''__proto__'' s = Some (Returned v, ob1, s1) \<and> (v = Undefined \<or> v = Null) \<longrightarrow>
        removeProperty k ob name only s = Some (Thrown TypeError, ob1, s1)"
    by (auto simp: removeProperty_def)
  have c3: "get k ob ''__proto__'' s = Some (Thrown e, ob1, s1) \<longrightarrow>
        removeProperty k ob name only s = Some (Thrown e, ob1, s1)"
    by (simp add: removeProperty_def)
  have c4: "lookup ob ''__proto__'' = None \<longrightarrow>
        removeProperty (Suc k) ob name only s = Some (Thrown TypeError, ob, s)"
    by (simp add: removeProperty_def)
  have c5: "lookup ob ''__proto__'' = Some (Accessor (Some (Host (HostGetter n None))) st c)
        \<and> host s n = Ref r
        \<and> (heap s r name = None
           \<or> (\<exists>info. heap s r name = Some info \<and> (getter_of info = None \<or> setter_of info = None))) \<longrightarrow>
        removeProperty (Suc (Suc k)) ob name only s
          = Some ((case sink_failure (if heap s r name = None then lacks else plain) s of
                     None \<Rightarrow> Returned () | Some e \<Rightarrow> Thrown e),
                  ob,
                  add_events [HostGet n,
                              notice_event (if heap s r name = None then lacks else plain) s] s)"
  proof
    assume h: "lookup ob ''__proto__'' = Some (Accessor (Some (Host (HostGetter n None))) st c)
        \<and> host s n = Ref r
        \<and> (heap s r name = None
           \<or> (\<exists>info. heap s r name = Some info \<and> (getter_of info = None \<or> setter_of info = None)))"
    let ?s1 = "record_event (HostGet n) s"
    from h have read: "get (Suc (Suc k)) ob ''__proto__'' s = Some (Returned (Ref r), ob, ?s1)"
      using get_host[of ob "''__proto__''" n st c k s] by simp
    have desc: "own_descriptor (Ref r) name ?s1 = Some (heap s r name)"
      by (simp add: add_events_def)
    have same: "\<And>m. sink_failure m (add_events [HostGet n] s) = sink_failure m s"
      "\<And>m. notice_event m (add_events [HostGet n] s) = notice_event m s"
      by (simp_all add: sink_failure_def notice_event_def)
    from main[OF read desc] h
    show "removeProperty (Suc (Suc k)) ob name only s
          = Some ((case sink_failure (if heap s r name = None then lacks else plain) s of
                     None \<Rightarrow> Returned () | Some e \<Rightarrow> Thrown e),
                  ob,
                  add_events [HostGet n,
                              notice_event (if heap s r name = None then lacks else plain) s] s)"
      by (simp add: same)
  qed
  from c1 c2 c3 c4 c5 show ?thesis by blast
qed

lemmas object_defs = removeProperty_def log_and_return_def warnOnce_def warnOnceMessage_def
  defineProperty_def lookup_def has_property_def log_def record_event_def example_object_def
  rootless_object_def example_prototype_def object_prototype_def
  initial_def quiet_def throwing_process_def suppressing_process_def setHandler_def enter_def
  calm_handler_def failing_handler_def string_own_def array_index_def

theorem removeProperty_soft_failure_witness:
  "removeProperty (Suc (Suc 0)) example_object ''q'' None (initial\<lparr>proc := suppressing_process\<rparr>)
     = Some (Returned (), example_object,
        add_events [HostGet 0,
                    Warned (''(electron) Unable to remove property '' @ sq # ''q'' @ sq #
                            '' from an object that lacks it.'')]
          (initial\<lparr>proc := suppressing_process\<rparr>))
   \<and> removeProperty (Suc (Suc 0)) example_object ''d'' None (setHandler (Some calm_handler) initial)
     = Some (Returned (), example_object,
        add_events [HostGet 0,
                    Handled 7 (''Unable to remove property '' @ sq # ''d'' @ sq #
                               '' from an object does not have a getter / setter'')]
          (setHandler (Some calm_handler) initial))
   \<and> removeProperty (Suc (Suc 0)) rootless_object ''old'' None initial
     = Some (Thrown TypeError, rootless_object, initial)"
  (is ?run)
proof -
  have run: ?run
    by (simp add: object_defs del: add_events_simps(3)) (simp add: add_events_def)
  have shape: "lookup example_object ''__proto__''
      = Some (Accessor (Some (Host (HostGetter 0 None))) (Some (Host (HostSetter 0 (\<lambda>v. None)))) True)
      \<and> host (initial\<lparr>proc := suppressing_process\<rparr>) 0 = Ref 1
      \<and> (heap (initial\<lparr>proc := suppressing_process\<rparr>) 1 ''q'' = None
         \<or> (\<exists>info. heap (initial\<lparr>proc := suppressing_process\<rparr>) 1 ''q'' = Some info
               \<and> (getter_of info = None \<or> setter_of info = None)))"
    "lookup rootless_object ''__proto__'' = None"
    by (simp_all add: object_defs)
  from removeProperty_soft_failure[where ob = example_object and name = "''q''" and only = None
         and s = "initial\<lparr>proc := suppressing_process\<rparr>" and n = 0 and r = 1 and k = 0
         and st = "Some (Host (HostSetter 0 (\<lambda>v. None)))" and c = True] shape(1)
       removeProperty_soft_failure[where ob = rootless_object and name = "''old''" and only = None
         and s = initial and k = "Suc 0"] shape(2)
  show ?thesis by - (rule run)
qed

theorem removeProperty_counterexample:
  "removeProperty (Suc (Suc 0)) example_object ''d'' None (initial\<lparr>proc := throwing_process\<rparr>)
     = Some (Thrown (Error (''Unable to remove property '' @ sq # ''d'' @ sq #
                       '' from an object does not have a getter / setter'')),
        example_object,
        add_events [HostGet 0,
                    Threw (''Unable to remove property '' @ sq # ''d'' @ sq #
                           '' from an object does not have a getter / setter'')]
          (initial\<lparr>proc := throwing_process\<rparr>))
   \<and> removeProperty (Suc (Suc 0)) example_object ''q'' None (setHandler (Some failing_handler) initial)
     = Some (Thrown (Error ''handler failed''), example_object,
        add_events [HostGet 0,
                    Handled 8 (''Unable to remove property '' @ sq # ''q'' @ sq #
                               '' from an object that lacks it.'')]
          (setHandler (Some failing_handler) initial))
   \<and> hd (protos rootless_object) ''q'' = None
   \<and> removeProperty (Suc (Suc 0)) rootless_object ''q'' None initial
     = Some (Thrown TypeError, rootless_object, initial)"
  by (simp add: object_defs del: add_events_simps(3)) (simp add: add_events_def)

lemma removeProperty_success:
  assumes read: "get k ob ''__proto__'' s = Some (Returned pv, ob1, s1)"
    and info: "own_descriptor pv name s1 = Some (Some (Accessor (Some g) (Some st) cf))"
    and ok: "definable ob1 name"
  shows "removeProperty k ob name only s =
     Some (Returned (),
       removed ob1 name (Warner (next_cell s1) (sq # name @ sq # '' is deprecated and will be removed.''))
         g st only,
       s1\<lparr>warned := (warned s1)(next_cell s1 := False), next_cell := Suc (next_cell s1)\<rparr>)"
  using ok removeProperty_read[OF read, of name only] info
  by (auto simp add: warnOnce_def warnOnceMessage_def removed_def
      defineProperty_def definable_def split: option.splits)

lemma put_removed:
  "put (Suc (Suc k)) (removed ob name w g st only) name v t =
     (case (if (case only of None \<Rightarrow> True | Some vs \<Rightarrow> v \<in> set vs)
            then call_warner w t else (Returned (), t)) of
        (Thrown e, t') \<Rightarrow> Some (Thrown e, removed ob name w g st only, t')
      | (Returned _, t') \<Rightarrow>
          Some ((case fst (call_host st [v] t') of Returned _ \<Rightarrow> Returned v | Thrown e \<Rightarrow> Thrown e),
                removed ob name w g st only, snd (call_host st [v] t')))"
  by (auto simp: lookup_def removed_def simp del: add_events_simps(3)
      split: prod.splits outcome.splits option.splits)

text \<open>
  C10, as amended. On the success path of \<open>removeProperty\<close> (\<open>object.__proto__\<close>
  reads as a value that holds the property with a getter and a setter, and the property
  can be defined on the object) the object gets an accessor property whose setter works
  as follows for a written value \<open>v\<close>. The filter decides only whether the closure is
  called: it is called when no filter is given or \<open>v\<close> is in the filter. When the
  closure is not called or not armed, nothing is reported and the original setter is
  called with \<open>v\<close>. When it is called, armed, and reporting does not throw, the
  warning is reported once, the closure has fired, and the original setter is called
  with \<open>v\<close>. When it is called, armed, and reporting throws (no handler and the throw
  flag set, or a handler that throws), the write throws that error, the closure has
  fired, and the original setter is not called. When the original setter is called the
  write gives \<open>v\<close>, or throws what the setter throws.
\<close>

theorem removed_setter_forwards:
  fixes ob ob1 :: jsobj and name :: string and only :: "jsval list option" and s s1 :: state
    and g st :: hostfn
  defines "msg \<equiv> sq # name @ sq # '' is deprecated and will be removed.''"
    and "ob' \<equiv> removed ob1 name (Warner (next_cell s1) (sq # name @ sq # '' is deprecated and will be removed.'')) g st only"
    and "fires \<equiv> \<lambda>v. (case only of None \<Rightarrow> True | Some vs \<Rightarrow> v \<in> set vs)"
  assumes read: "get k0 ob ''__proto__'' s = Some (Returned pv, ob1, s1)"
    and info: "own_descriptor pv name s1 = Some (Some (Accessor (Some g) (Some st) cf))"
    and ok: "definable ob1 name"
  shows
  "removeProperty k0 ob name only s
     = Some (Returned (), ob',
             s1\<lparr>warned := (warned s1)(next_cell s1 := False), next_cell := Suc (next_cell s1)\<rparr>)
   \<and> own ob' name = Some (Accessor (Some (RemovedGet (Warner (next_cell s1) msg) g))
                                   (Some (RemovedSet (Warner (next_cell s1) msg) st only)) True)
   \<and> (\<not> (fires v \<and> armed (Warner (next_cell s1) msg) t) \<longrightarrow>
        put (Suc (Suc k)) ob' name v t
          = Some ((case fst (call_host st [v] t) of Returned _ \<Rightarrow> Returned v | Thrown e \<Rightarrow> Thrown e),
                  ob', snd (call_host st [v] t)))
   \<and> (fires v \<and> armed (Warner (next_cell s1) msg) t \<and> sink_failure msg t = None \<longrightarrow>
        put (Suc (Suc k)) ob' name v t
          = Some ((case fst (call_host st [v] (reported (next_cell s1) msg t)) of
                     Returned _ \<Rightarrow> Returned v | Thrown e \<Rightarrow> Thrown e),
                  ob', snd (call_host st [v] (reported (next_cell s1) msg t))))
   \<and> (fires v \<and> armed (Warner (next_cell s1) msg) t \<and> sink_failure msg t = Some e \<longrightarrow>
        put (Suc (Suc k)) ob' name v t = Some (Thrown e, ob', reported (next_cell s1) msg t))
   \<and> events (reported (next_cell s1) msg t) = events t @ [notice_event msg t]
   \<and> warned (reported (next_cell s1) msg t) = (warned t)(next_cell s1 := True)
   \<and> host (reported (next_cell s1) msg t) = host t
   \<and> reports msg (notice_event msg t)
   \<and> call_host (HostSetter n r) [v] t
       = ((case r v of None \<Rightarrow> Returned Undefined | Some e \<Rightarrow> Thrown e),
          record_event (HostSet n v) (if r v = None then t\<lparr>host := (host t)(n := v)\<rparr> else t))"
proof -
  define c where "c = next_cell s1"
  define w where "w = Warner c msg"
  have ob': "ob' = removed ob1 name w g st only" by (simp add: ob'_def w_def c_def msg_def)
  note R = removeProperty_success[OF read info ok, of only]
  note P = put_removed[of k ob1 name w g st only v t, folded ob']
  have fire: "armed w t \<Longrightarrow> call_warner w t
      = ((case sink_failure msg t of None \<Rightarrow> Returned () | Some e \<Rightarrow> Thrown e), reported c msg t)"
    using call_warner_armed[of c msg t] by (simp add: w_def)
  have c1: "removeProperty k0 ob name only s
     = Some (Returned (), ob',
             s1\<lparr>warned := (warned s1)(next_cell s1 := False), next_cell := Suc (next_cell s1)\<rparr>)"
    by (simp add: R ob'_def)
  have c2: "own ob' name = Some (Accessor (Some (RemovedGet w g)) (Some (RemovedSet w st only)) True)"
    by (simp add: ob' removed_def)
  have c3: "\<not> (fires v \<and> armed w t) \<longrightarrow>
        put (Suc (Suc k)) ob' name v t
          = Some ((case fst (call_host st [v] t) of Returned _ \<Rightarrow> Returned v | Thrown e \<Rightarrow> Thrown e),
                  ob', snd (call_host st [v] t))"
    using P call_warner_idle[of w t] by (auto simp: fires_def)
  have c4: "fires v \<and> armed w t \<and> sink_failure msg t = None \<longrightarrow>
        put (Suc (Suc k)) ob' name v t
          = Some ((case fst (call_host st [v] (reported c msg t)) of
                     Returned _ \<Rightarrow> Returned v | Thrown e \<Rightarrow> Thrown e),
                  ob', snd (call_host st [v] (reported c msg t)))"
    using P fire by (auto simp: fires_def)
  have c5: "fires v \<and> armed w t \<and> sink_failure msg t = Some e \<longrightarrow>
        put (Suc (Suc k)) ob' name v t = Some (Thrown e, ob', reported c msg t)"
    using P fire by (auto simp: fires_def)
  have c6: "events (reported c msg t) = events t @ [notice_event msg t]"
    "warned (reported c msg t) = (warned t)(c := True)"
    "host (reported c msg t) = host t"
    "reports msg (notice_event msg t)"
    by (simp_all add: reported_frame notice_event_reports)
  have c7: "call_host (HostSetter n r) [v] t
       = ((case r v of None \<Rightarrow> Returned Undefined | Some e \<Rightarrow> Thrown e),
          record_event (HostSet n v) (if r v = None then t\<lparr>host := (host t)(n := v)\<rparr> else t))"
    by (simp split: option.splits)
  from c1 c2 c3 c4 c5 c6 c7 show ?thesis unfolding w_def c_def by blast
qed


theorem removed_setter_forwards_witness:
  "map_option fst (removeProperty (Suc (Suc 0)) example_object ''p'' (Some [Num 1]) initial)
     = Some (Returned ())
   \<and> map_option fst
       (remove_then_put (Suc (Suc 0)) example_object ''p'' (Some [Num 1]) (quiet, None) (Num 1) initial)
     = Some (Returned (Num 1))
   \<and> map_option (events \<circ> snd \<circ> snd)
       (remove_then_put (Suc (Suc 0)) example_object ''p'' (Some [Num 1]) (quiet, None) (Num 1) initial)
     = Some [HostGet 0,
             Warned (''(electron) '' @ sq # ''p'' @ sq # '' is deprecated and will be removed.''),
             HostSet 1 (Num 1)]
   \<and> map_option (events \<circ> snd \<circ> snd)
       (remove_then_put (Suc (Suc 0)) example_object ''p'' (Some [Num 1]) (quiet, None) (Num 2) initial)
     = Some [HostGet 0, HostSet 1 (Num 2)]"
  (is ?run)
proof -
  have run: ?run
    by (simp add: object_defs remove_then_put_def del: add_events_simps(3))
  have shape: "get (Suc (Suc 0)) example_object ''__proto__'' initial
      = Some (Returned (Ref 1), example_object, add_events [HostGet 0] initial)"
    "own_descriptor (Ref 1) ''p'' (add_events [HostGet 0] initial)
      = Some (Some (Accessor (Some (HostGetter 1 None)) (Some (HostSetter 1 (\<lambda>v. None))) True))"
    "definable example_object ''p''"
    by (simp_all add: object_defs definable_def add_events_def)
  from removed_setter_forwards[OF shape, where only = "Some [Num 1]" and v = "Num 1" and k = 0
         and t = "enter (quiet, None)
           (snd (snd (the (removeProperty (Suc (Suc 0)) example_object ''p'' (Some [Num 1]) initial))))"]
  show ?thesis by - (rule run)
qed

theorem removed_setter_counterexample:
  "map_option fst
     (removeProperty (Suc (Suc 0)) example_object ''p'' (Some [Num 1]) initial)
     = Some (Returned ())
   \<and> map_option fst
       (remove_then_put (Suc (Suc 0)) example_object ''p'' (Some [Num 1])
          (throwing_process, None) (Num 1) initial)
     = Some (Thrown (Error (sq # ''p'' @ sq # '' is deprecated and will be removed.'')))
   \<and> map_option (events \<circ> snd \<circ> snd)
       (remove_then_put (Suc (Suc 0)) example_object ''p'' (Some [Num 1])
          (throwing_process, None) (Num 1) initial)
     = Some [HostGet 0, Threw (sq # ''p'' @ sq # '' is deprecated and will be removed.'')]
   \<and> map_option (events \<circ> snd \<circ> snd)
       (remove_then_put (Suc (Suc 0)) example_object ''p'' (Some [Num 1])
          (throwing_process, None) (Num 2) initial)
     = Some [HostGet 0, HostSet 1 (Num 2)]
   \<and> map_option fst
       (remove_then_put (Suc (Suc 0)) example_object ''p'' (Some [Num 1])
          (quiet, Some failing_handler) (Num 1) initial)
     = Some (Thrown (Error ''handler failed''))
   \<and> map_option (events \<circ> snd \<circ> snd)
       (remove_then_put (Suc (Suc 0)) example_object ''p'' (Some [Num 1])
          (quiet, Some failing_handler) (Num 1) initial)
     = Some [HostGet 0, Handled 8 (sq # ''p'' @ sq # '' is deprecated and will be removed.'')]"
  by (simp add: object_defs remove_then_put_def del: add_events_simps(3))

lemma get_data:
  "lookup ob n = Some (Data v w c) \<Longrightarrow> get (Suc k) ob n s = Some (Returned v, ob, s)"
  by simp

lemma put_fresh:
  "lookup ob n = None \<Longrightarrow> extensible ob \<Longrightarrow>
   put (Suc k) ob n v s = Some (Returned v, ob\<lparr>own := (own ob)(n \<mapsto> Data v True True)\<rparr>, s)"
  by simp

lemma renameProperty_unfold:
  assumes old: "own ob old = Some (Data v wr True)" and new: "lookup ob new = None"
    and ext: "extensible ob"
  shows "renameProperty (Suc k) ob old new s =
     (case call_warner (fst (warnOnce old (Some new) s)) (snd (warnOnce old (Some new) s)) of
        (Thrown e, s') \<Rightarrow> Some (Thrown e, ob, s')
      | (Returned _, s') \<Rightarrow>
          Some (Returned (), renamed ob old new (fst (warnOnce old (Some new) s)) v, s'))"
proof -
  have ne: "old \<noteq> new" using old new by (auto simp: lookup_def)
  have lo: "lookup ob old = Some (Data v wr True)" using old by (simp add: lookup_def)
  have has: "has_property ob old \<and> \<not> has_property ob new"
    using lo new by (simp add: has_property_def)
  obtain w s1 where w: "warnOnce old (Some new) s = (w, s1)" by (cases "warnOnce old (Some new) s")
  obtain r s2 where c: "call_warner w s1 = (r, s2)" by (cases "call_warner w s1")
  show ?thesis
  proof (cases r)
    case (Thrown e)
    with w c has show ?thesis by (simp add: renameProperty_def)
  next
    case (Returned u)
    let ?ob1 = "ob\<lparr>own := (own ob)(new \<mapsto> Data v True True)\<rparr>"
    have d: "defineProperty ?ob1 old (RenamedGet w new) (RenamedSet w new) None
      = Returned (renamed ob old new w v)"
      using old ne by (simp add: defineProperty_def renamed_def)
    from w c has Returned get_data[OF lo, of k s2] put_fresh[OF new ext, of k v s2] d
    show ?thesis by (simp add: renameProperty_def del: get.simps put.simps)
  qed
qed

lemma get_renamed:
  assumes "old \<noteq> new"
  shows "get (Suc (Suc (Suc k))) (renamed ob old new w v) old t =
     (case call_warner w t of
        (Thrown e, t') \<Rightarrow> Some (Thrown e, renamed ob old new w v, t')
      | (Returned _, t') \<Rightarrow> Some (Returned v, renamed ob old new w v, t'))"
  using assms
  by (auto simp: lookup_def renamed_def split: prod.splits outcome.splits)

lemma put_renamed:
  assumes "old \<noteq> new"
  shows "put (Suc (Suc (Suc k))) (renamed ob old new w v) old u t =
     (case call_warner w t of
        (Thrown e, t') \<Rightarrow> Some (Thrown e, renamed ob old new w v, t')
      | (Returned _, t') \<Rightarrow> Some (Returned u, renamed ob old new w u, t'))"
  using assms
  by (auto simp: lookup_def renamed_def fun_upd_twist split: prod.splits outcome.splits)

lemma warnOnce_some:
  "warnOnce old (Some new) s =
     (Warner (next_cell s)
        (if new \<noteq> [] then sq # old @ sq # '' is deprecated and will be removed. Please use '' @
                              sq # new @ sq # '' instead.''
         else sq # old @ sq # '' is deprecated and will be removed.''),
      s\<lparr>warned := (warned s)(next_cell s := False), next_cell := Suc (next_cell s)\<rparr>)"
  by (simp add: warnOnce_def warnOnceMessage_def)

text \<open>
  C9, as amended. Let the old name be an own configurable data property with value
  \<open>v\<close> of an extensible object that has no property of the new name. The migration
  calls the closure first. Under suppression nothing is reported, the value is copied
  and the accessor pair is installed, with the closure still unfired. With suppression
  off and reporting that does not throw, the warning is reported once, the closure has
  fired, the value is copied and the accessor pair is installed. With suppression off
  and reporting that throws (no handler and the throw flag set, or a handler that
  throws), \<open>renameProperty\<close> throws that error, the closure has fired and the object
  stays as it was. After a migration the new name holds \<open>v\<close>; reading the old name
  returns \<open>v\<close> and writing \<open>u\<close> to the old name stores \<open>u\<close> under the new name.
  Each access calls the same closure first: when it is not armed, as after a migration
  that reported, the access reports nothing; when it is armed the access reports the
  warning once, and throws without reading or writing when reporting throws.
\<close>

theorem renameProperty_migrates:
  fixes ob :: jsobj and old new :: string and s :: state
  defines "msg \<equiv> (if new \<noteq> [] then sq # old @ sq # '' is deprecated and will be removed. Please use '' @
                              sq # new @ sq # '' instead.''
         else sq # old @ sq # '' is deprecated and will be removed.'')"
    and "s1 \<equiv> s\<lparr>warned := (warned s)(next_cell s := False), next_cell := Suc (next_cell s)\<rparr>"
  assumes old: "own ob old = Some (Data v wr True)" and new: "lookup ob new = None"
    and ext: "extensible ob"
  shows
  "(noDeprecation (proc s) \<longrightarrow>
      renameProperty (Suc k) ob old new s
        = Some (Returned (), renamed ob old new (Warner (next_cell s) msg) v, s1))
   \<and> (\<not> noDeprecation (proc s) \<and> sink_failure msg s = None \<longrightarrow>
        renameProperty (Suc k) ob old new s
          = Some (Returned (), renamed ob old new (Warner (next_cell s) msg) v,
                  reported (next_cell s) msg s1))
   \<and> (\<not> noDeprecation (proc s) \<and> sink_failure msg s = Some e \<longrightarrow>
        renameProperty (Suc k) ob old new s = Some (Thrown e, ob, reported (next_cell s) msg s1))
   \<and> events (reported (next_cell s) msg s1) = events s @ [notice_event msg s]
   \<and> warned (reported (next_cell s) msg s1) (next_cell s)
   \<and> lookup (renamed ob old new (Warner (next_cell s) msg) v) new = Some (Data v True True)
   \<and> (\<not> armed (Warner (next_cell s) msg) t \<longrightarrow>
        get (Suc (Suc (Suc k))) (renamed ob old new (Warner (next_cell s) msg) v) old t
          = Some (Returned v, renamed ob old new (Warner (next_cell s) msg) v, t)
        \<and> put (Suc (Suc (Suc k))) (renamed ob old new (Warner (next_cell s) msg) v) old u t
          = Some (Returned u, renamed ob old new (Warner (next_cell s) msg) u, t))
   \<and> (armed (Warner (next_cell s) msg) t \<and> sink_failure msg t = None \<longrightarrow>
        get (Suc (Suc (Suc k))) (renamed ob old new (Warner (next_cell s) msg) v) old t
          = Some (Returned v, renamed ob old new (Warner (next_cell s) msg) v,
                  reported (next_cell s) msg t)
        \<and> put (Suc (Suc (Suc k))) (renamed ob old new (Warner (next_cell s) msg) v) old u t
          = Some (Returned u, renamed ob old new (Warner (next_cell s) msg) u,
                  reported (next_cell s) msg t))
   \<and> (armed (Warner (next_cell s) msg) t \<and> sink_failure msg t = Some e \<longrightarrow>
        get (Suc (Suc (Suc k))) (renamed ob old new (Warner (next_cell s) msg) v) old t
          = Some (Thrown e, renamed ob old new (Warner (next_cell s) msg) v,
                  reported (next_cell s) msg t)
        \<and> put (Suc (Suc (Suc k))) (renamed ob old new (Warner (next_cell s) msg) v) old u t
          = Some (Thrown e, renamed ob old new (Warner (next_cell s) msg) v,
                  reported (next_cell s) msg t))
   \<and> events (reported (next_cell s) msg t) = events t @ [notice_event msg t]
   \<and> warned (reported (next_cell s) msg t) = (warned t)(next_cell s := True)
   \<and> reports msg (notice_event msg t)"
proof -
  define c where "c = next_cell s"
  define w where "w = Warner c msg"
  have ne: "old \<noteq> new" using old new by (auto simp: lookup_def)
  have W: "warnOnce old (Some new) s = (w, s1)"
    by (simp add: warnOnce_some w_def c_def msg_def s1_def)
  have R: "renameProperty (Suc k) ob old new s =
     (case call_warner w s1 of
        (Thrown e, s') \<Rightarrow> Some (Thrown e, ob, s')
      | (Returned _, s') \<Rightarrow> Some (Returned (), renamed ob old new w v, s'))"
    using renameProperty_unfold[OF old new ext, of k s] unfolding W fst_conv snd_conv .
  have armed1: "armed w s1 = (\<not> noDeprecation (proc s))" by (simp add: w_def c_def s1_def)
  have fail1: "sink_failure msg s1 = sink_failure msg s" by (simp add: sink_failure_def s1_def)
  have note1: "notice_event msg s1 = notice_event msg s" by (simp add: notice_event_def s1_def)
  have ev1: "events s1 = events s" by (simp add: s1_def)
  have fire: "\<And>x. armed w x \<Longrightarrow> call_warner w x
      = ((case sink_failure msg x of None \<Rightarrow> Returned () | Some e \<Rightarrow> Thrown e), reported c msg x)"
    using call_warner_armed[of c msg] by (simp add: w_def)
  note G = get_renamed[OF ne, of k ob w v t] and P = put_renamed[OF ne, of k ob w v u t]
  have a: "noDeprecation (proc s) \<longrightarrow>
      renameProperty (Suc k) ob old new s = Some (Returned (), renamed ob old new w v, s1)"
    using R call_warner_idle[of w s1] by (simp add: armed1)
  have b: "\<not> noDeprecation (proc s) \<and> sink_failure msg s = None \<longrightarrow>
        renameProperty (Suc k) ob old new s
          = Some (Returned (), renamed ob old new w v, reported c msg s1)"
    using R fire[of s1] by (simp add: armed1 fail1)
  have c: "\<not> noDeprecation (proc s) \<and> sink_failure msg s = Some e \<longrightarrow>
        renameProperty (Suc k) ob old new s = Some (Thrown e, ob, reported c msg s1)"
    using R fire[of s1] by (simp add: armed1 fail1)
  have c': "events (reported c msg s1) = events s @ [notice_event msg s]"
    "warned (reported c msg s1) c"
    by (simp_all add: reported_frame note1 ev1)
  have d: "lookup (renamed ob old new w v) new = Some (Data v True True)"
    using ne by (simp add: lookup_def renamed_def)
  have e: "\<not> armed w t \<longrightarrow>
        get (Suc (Suc (Suc k))) (renamed ob old new w v) old t
          = Some (Returned v, renamed ob old new w v, t)
        \<and> put (Suc (Suc (Suc k))) (renamed ob old new w v) old u t
          = Some (Returned u, renamed ob old new w u, t)"
    using G P call_warner_idle[of w t] by simp
  have f: "armed w t \<and> sink_failure msg t = None \<longrightarrow>
        get (Suc (Suc (Suc k))) (renamed ob old new w v) old t
          = Some (Returned v, renamed ob old new w v, reported c msg t)
        \<and> put (Suc (Suc (Suc k))) (renamed ob old new w v) old u t
          = Some (Returned u, renamed ob old new w u, reported c msg t)"
    using G P fire[of t] by simp
  have g: "armed w t \<and> sink_failure msg t = Some e \<longrightarrow>
        get (Suc (Suc (Suc k))) (renamed ob old new w v) old t
          = Some (Thrown e, renamed ob old new w v, reported c msg t)
        \<and> put (Suc (Suc (Suc k))) (renamed ob old new w v) old u t
          = Some (Thrown e, renamed ob old new w v, reported c msg t)"
    using G P fire[of t] by simp
  have h: "events (reported c msg t) = events t @ [notice_event msg t]"
    "warned (reported c msg t) = (warned t)(c := True)"
    "reports msg (notice_event msg t)"
    by (simp_all add: reported_frame notice_event_reports)
  from a b c c' d e f g h show ?thesis unfolding w_def c_def by blast
qed

lemmas rename_defs = renameProperty_def rename_then_get_def rename_then_put_def property_after_def
  warnOnce_def warnOnceMessage_def defineProperty_def lookup_def has_property_def log_def
  record_event_def example_object_def example_prototype_def object_prototype_def
  initial_def quiet_def throwing_process_def
  suppressing_process_def setHandler_def enter_def calm_handler_def failing_handler_def

theorem renameProperty_migrates_witness:
  "property_after ''new''
       (renameProperty (Suc (Suc (Suc 0))) example_object ''old'' ''new''
          (setHandler (Some calm_handler) initial))
     = Some (Data (Num 5) True True)
   \<and> map_option (events \<circ> snd \<circ> snd)
       (renameProperty (Suc (Suc (Suc 0))) example_object ''old'' ''new''
          (setHandler (Some calm_handler) initial))
     = Some [Handled 7 (sq # ''old'' @ sq # '' is deprecated and will be removed. Please use '' @
                        sq # ''new'' @ sq # '' instead.'')]
   \<and> map_option fst
       (rename_then_get (Suc (Suc (Suc 0))) example_object ''old'' ''new'' (quiet, Some calm_handler)
          (setHandler (Some calm_handler) initial))
     = Some (Returned (Num 5))
   \<and> property_after ''new''
       (rename_then_put (Suc (Suc (Suc 0))) example_object ''old'' ''new'' (quiet, Some calm_handler)
          (Num 7) (setHandler (Some calm_handler) initial))
     = Some (Data (Num 7) True True)
   \<and> map_option (events \<circ> snd \<circ> snd)
       (rename_then_get (Suc (Suc (Suc 0))) example_object ''old'' ''new'' (quiet, Some calm_handler)
          (initial\<lparr>proc := suppressing_process\<rparr>))
     = Some [Handled 7 (sq # ''old'' @ sq # '' is deprecated and will be removed. Please use '' @
                        sq # ''new'' @ sq # '' instead.'')]"
  (is ?run)
proof -
  have run: ?run by (simp add: rename_defs del: add_events_simps(3))
  have shape: "own example_object ''old'' = Some (Data (Num 5) True True)"
    "lookup example_object ''new'' = None" "extensible example_object"
    by (simp_all add: example_object_def example_prototype_def object_prototype_def lookup_def)
  from renameProperty_migrates[OF shape, where s = "setHandler (Some calm_handler) initial"
         and k = "Suc (Suc 0)" and t = "setHandler (Some calm_handler) initial" and u = "Num 7"]
       renameProperty_migrates[OF shape, where s = "initial\<lparr>proc := suppressing_process\<rparr>"
         and k = "Suc (Suc 0)" and u = "Num 7"
         and t = "enter (quiet, Some calm_handler)
            (initial\<lparr>warned := (warned initial)(0 := False), next_cell := Suc 0,
                      proc := suppressing_process\<rparr>)"]
  show ?thesis by - (rule run)
qed

theorem renameProperty_counterexample:
  "map_option (events \<circ> snd \<circ> snd)
       (renameProperty (Suc (Suc (Suc 0))) example_object ''old'' ''new''
          (setHandler (Some calm_handler) initial))
     = Some [Handled 7 (sq # ''old'' @ sq # '' is deprecated and will be removed. Please use '' @
                        sq # ''new'' @ sq # '' instead.'')]
   \<and> map_option fst
       (rename_then_get (Suc (Suc (Suc 0))) example_object ''old'' ''new'' (quiet, Some calm_handler)
          (setHandler (Some calm_handler) initial))
     = Some (Returned (Num 5))
   \<and> map_option (events \<circ> snd \<circ> snd)
       (rename_then_get (Suc (Suc (Suc 0))) example_object ''old'' ''new'' (quiet, Some calm_handler)
          (setHandler (Some calm_handler) initial))
     = Some [Handled 7 (sq # ''old'' @ sq # '' is deprecated and will be removed. Please use '' @
                        sq # ''new'' @ sq # '' instead.'')]
   \<and> map_option fst
       (renameProperty (Suc (Suc (Suc 0))) example_object ''old'' ''new''
          (setHandler (Some failing_handler) initial))
     = Some (Thrown (Error ''handler failed''))
   \<and> property_after ''new''
       (renameProperty (Suc (Suc (Suc 0))) example_object ''old'' ''new''
          (setHandler (Some failing_handler) initial))
     = None
   \<and> property_after ''new''
       (renameProperty (Suc (Suc (Suc 0))) example_object ''old'' ''new''
          (initial\<lparr>proc := suppressing_process\<rparr>))
     = Some (Data (Num 5) True True)
   \<and> map_option (events \<circ> snd \<circ> snd)
       (renameProperty (Suc (Suc (Suc 0))) example_object ''old'' ''new''
          (initial\<lparr>proc := suppressing_process\<rparr>))
     = Some []"
  by (simp add: rename_defs del: add_events_simps(3))

end
